theory Spec2Isabelle
  imports Complex_Main
begin

section \<open>JavaScript strings and numbers\<close>

text \<open>
  Strings are lists of 8-bit characters: the model speaks of the strings whose code units
  are below 256. Among these the white space of \<open>\s\<close>, of \<open>trim\<close> and of \<open>parseInt\<close> is
  the space, the five control characters from tab to carriage return and the no-break
  space U+00A0. The case folding is that of the letters A to Z, the only ones the
  source's comparisons and expressions read. Numbers are mathematical integers, which is
  what the source's counters, timestamps and version parts are below \<open>2 ^ 53\<close>.
\<close>

definition is_ws :: "char \<Rightarrow> bool" where
  \<comment> \<open>the character class \<open>\s\<close>, and the characters \<open>trim\<close> and \<open>parseInt\<close> skip\<close>
  "is_ws c = (c \<in> set [CHR '' '', CHR 0x09, CHR 0x0A, CHR 0x0B, CHR 0x0C, CHR 0x0D, CHR 0xA0])"

definition lower_char :: "char \<Rightarrow> char" where
  "lower_char c =
     (case map_of (zip ''ABCDEFGHIJKLMNOPQRSTUVWXYZ'' ''abcdefghijklmnopqrstuvwxyz'') c of
        Some d \<Rightarrow> d | None \<Rightarrow> c)"

definition toLowerCase :: "string \<Rightarrow> string" where
  "toLowerCase s = map lower_char s"

fun startsWith :: "string \<Rightarrow> string \<Rightarrow> bool" where
  \<comment> \<open>\<open>s.startsWith(p)\<close>\<close>
  "startsWith s [] = True"
| "startsWith [] (p # ps) = False"
| "startsWith (c # cs) (p # ps) = (c = p \<and> startsWith cs ps)"

definition endsWith :: "string \<Rightarrow> string \<Rightarrow> bool" where
  "endsWith s p = startsWith (rev s) (rev p)"

fun str_includes :: "string \<Rightarrow> string \<Rightarrow> bool" where
  \<comment> \<open>\<open>s.includes(p)\<close>\<close>
  "str_includes [] p = (p = [])"
| "str_includes (c # cs) p = (startsWith (c # cs) p \<or> str_includes cs p)"

fun replace_first :: "string \<Rightarrow> string \<Rightarrow> string \<Rightarrow> string" where
  \<comment> \<open>\<open>s.replace(p, r)\<close> with a string pattern: the first occurrence only\<close>
  "replace_first [] p r = (if p = [] then r else [])"
| "replace_first (c # cs) p r =
     (if startsWith (c # cs) p then r @ drop (length p) (c # cs)
      else c # replace_first cs p r)"

definition digit_char :: "nat \<Rightarrow> char" where
  "digit_char d = ''0123456789'' ! d"

fun string_of_nat :: "nat \<Rightarrow> string" where
  "string_of_nat n =
     (if n < 10 then [digit_char n] else string_of_nat (n div 10) @ [digit_char (n mod 10)])"

declare string_of_nat.simps [simp del]

definition string_of_int :: "int \<Rightarrow> string" where
  \<comment> \<open>\<open>n.toString()\<close> and \<open>`${n}`\<close> on an integer\<close>
  "string_of_int i = (if i < 0 then CHR ''-'' # string_of_nat (nat (- i)) else string_of_nat (nat i))"

definition digit_val :: "char \<Rightarrow> nat option" where
  "digit_val c = map_of (zip ''0123456789'' [0, 1, 2, 3, 4, 5, 6, 7, 8, 9]) c"

definition is_digit :: "char \<Rightarrow> bool" where
  "is_digit c = (digit_val c \<noteq> None)"

fun nat_of_digits :: "nat \<Rightarrow> string \<Rightarrow> nat" where
  "nat_of_digits acc [] = acc"
| "nat_of_digits acc (c # cs) =
     nat_of_digits (10 * acc + (case digit_val c of Some d \<Rightarrow> d | None \<Rightarrow> 0)) cs"

definition parseInt10 :: "string \<Rightarrow> int option" where
  \<comment> \<open>\<open>parseInt(s, 10)\<close>: leading white space, an optional sign, the longest run of
      digits; \<open>None\<close> is NaN\<close>
  "parseInt10 s =
     (let t = dropWhile is_ws s;
          neg = (t \<noteq> [] \<and> hd t = CHR ''-'');
          u = (if t \<noteq> [] \<and> (hd t = CHR ''-'' \<or> hd t = CHR ''+'') then tl t else t);
          ds = takeWhile is_digit u
      in if ds = [] then None
         else Some (if neg then - int (nat_of_digits 0 ds) else int (nat_of_digits 0 ds)))"

section \<open>Errors\<close>

text \<open>
  The values the source throws. \<open>AppError code status message\<close> stands for the subclasses
  of \<open>AppError\<close> in \<open>types/errors.ts\<close>; \<open>AxiosError\<close> carries what \<open>categorizeError\<close>
  reads: \<open>error.code\<close>, \<open>error.message\<close> and \<open>error.response?.status\<close>.
\<close>

datatype js_error =
    PlainError string
  | AppError string nat string
  | AxiosError "string option" string "nat option"
  | ThrownUndefined

fun error_message :: "js_error \<Rightarrow> string" where
  \<comment> \<open>\<open>error instanceof Error ? error.message : String(error)\<close>\<close>
  "error_message (PlainError m) = m"
| "error_message (AppError c st m) = m"
| "error_message (AxiosError c m st) = m"
| "error_message ThrownUndefined = ''undefined''"

definition ConflictError :: "string \<Rightarrow> js_error" where
  "ConflictError m = AppError ''CONFLICT'' 409 m"


section \<open>FigmaIntegrator: the retry policy\<close>

datatype FigmaErrorType =
    NETWORK_ERROR | TIMEOUT_ERROR | API_ERROR | AUTHENTICATION_ERROR
  | NOT_FOUND_ERROR | RATE_LIMIT_ERROR | UNKNOWN_ERROR

record RetryConfig =
  maxRetries :: nat
  initialDelayMs :: nat
  maxDelayMs :: nat
  timeoutMs :: nat

definition retryConfig :: RetryConfig where
  "retryConfig = \<lparr>maxRetries = 3, initialDelayMs = 1000, maxDelayMs = 10000, timeoutMs = 30000\<rparr>"

text \<open>
  The requests. The constructor creates the axios instance with the base URL, the token
  header and \<open>timeout: this.retryConfig.timeoutMs\<close>; the file and the export URLs are
  requested through the instance, the export itself is downloaded with a configuration
  of its own. A request is the URL and the configuration that axios receives.
\<close>

record AxiosRequestConfig =
  cfg_baseURL :: "string option"
  cfg_headers :: "(string \<times> string) list"
  cfg_params :: "(string \<times> string) list"
  cfg_timeout :: nat
  cfg_responseType :: "string option"

definition axiosInstanceConfig :: "string \<Rightarrow> AxiosRequestConfig" where
  "axiosInstanceConfig apiToken =
     \<lparr>cfg_baseURL = Some ''https://api.figma.com/v1'',
      cfg_headers = [(''X-Figma-Token'', apiToken)],
      cfg_params = [],
      cfg_timeout = timeoutMs retryConfig,
      cfg_responseType = None\<rparr>"

definition filesRequest :: "string \<Rightarrow> string \<Rightarrow> string \<times> AxiosRequestConfig" where
  \<comment> \<open>\<open>this.axiosInstance.get(`/files/${this.fileId}`)\<close>\<close>
  "filesRequest apiToken fileId = (''/files/'' @ fileId, axiosInstanceConfig apiToken)"

definition imagesRequest :: "string \<Rightarrow> string \<Rightarrow> string \<Rightarrow> string \<times> AxiosRequestConfig" where
  \<comment> \<open>\<open>this.axiosInstance.get(`/images/${this.fileId}`, {params: {ids: componentId, format: 'svg'}})\<close>\<close>
  "imagesRequest apiToken fileId componentId =
     (''/images/'' @ fileId,
      (axiosInstanceConfig apiToken)\<lparr>cfg_params := [(''ids'', componentId), (''format'', ''svg'')]\<rparr>)"

definition downloadRequest :: "string \<Rightarrow> string \<times> AxiosRequestConfig" where
  \<comment> \<open>\<open>axios.get(imageResponse.svgUrl, {timeout: this.retryConfig.timeoutMs, responseType: 'text'})\<close>\<close>
  "downloadRequest svgUrl =
     (svgUrl,
      \<lparr>cfg_baseURL = None, cfg_headers = [], cfg_params = [],
       cfg_timeout = timeoutMs retryConfig, cfg_responseType = Some ''text''\<rparr>)"

fun categorizeError :: "js_error \<Rightarrow> FigmaErrorType" where
  "categorizeError (AxiosError code msg status) =
     (if code = Some ''ECONNABORTED'' \<or> (msg \<noteq> [] \<and> str_includes msg ''timeout'') then TIMEOUT_ERROR
      else case status of
        None \<Rightarrow> NETWORK_ERROR
      | Some st \<Rightarrow>
          if st = 401 \<or> st = 403 then AUTHENTICATION_ERROR
          else if st = 404 then NOT_FOUND_ERROR
          else if st = 429 then RATE_LIMIT_ERROR
          else API_ERROR)"
| "categorizeError e = UNKNOWN_ERROR"

definition isRetryableError :: "FigmaErrorType \<Rightarrow> bool" where
  "isRetryableError errorType =
     (errorType \<in> set [NETWORK_ERROR, TIMEOUT_ERROR, RATE_LIMIT_ERROR, API_ERROR])"

definition calculateBackoffDelay :: "nat \<Rightarrow> nat" where
  "calculateBackoffDelay attempt =
     min (initialDelayMs retryConfig * 2 ^ attempt) (maxDelayMs retryConfig)"

text \<open>
  \<open>executeWithRetry\<close>. The request is given by the outcome of each of its invocations,
  \<open>requestFn k\<close> for the \<open>k\<close>-th one; the model returns what the source returns or throws,
  the number of invocations made and the delays waited between them.
\<close>

function retry_loop ::
  "(nat \<Rightarrow> js_error + 'a) \<Rightarrow> nat \<Rightarrow> js_error option \<Rightarrow> nat list
     \<Rightarrow> (js_error + 'a) \<times> nat \<times> nat list" where
  "retry_loop requestFn attempt lastError delays =
     (if attempt \<le> maxRetries retryConfig then
        (case requestFn attempt of
           Inr result \<Rightarrow> (Inr result, attempt + 1, delays)
         | Inl error \<Rightarrow>
             if \<not> (isRetryableError (categorizeError error) \<and> attempt < maxRetries retryConfig)
             then (Inl error, attempt + 1, delays)
             else retry_loop requestFn (attempt + 1) (Some error)
                    (delays @ [calculateBackoffDelay attempt]))
      else (Inl (case lastError of Some e \<Rightarrow> e | None \<Rightarrow> ThrownUndefined), attempt, delays))"
  by pat_completeness auto
termination
  by (relation "measure (\<lambda>(requestFn, attempt, lastError, delays). 4 - attempt)")
     (auto simp: retryConfig_def)

declare retry_loop.simps [simp del]

definition executeWithRetry :: "(nat \<Rightarrow> js_error + 'a) \<Rightarrow> (js_error + 'a) \<times> nat \<times> nat list" where
  "executeWithRetry requestFn = retry_loop requestFn 0 None []"

section \<open>CacheManager: the cache headers\<close>

record CacheHeaders =
  Cache_Control :: string
  ETag :: string
  Last_Modified :: string

text \<open>
  \<open>getCacheHeaders\<close>. The manager is its \<open>ttl\<close>; the entity tag (an MD5 digest) and the
  date string come from the platform and are passed in as computed.
\<close>

definition default_ttl :: int where
  "default_ttl = 86400"

definition getCacheHeaders :: "int \<Rightarrow> string \<Rightarrow> string \<Rightarrow> bool \<Rightarrow> CacheHeaders" where
  "getCacheHeaders ttl etag lastModified isDevelopment =
     \<lparr>Cache_Control =
        (if isDevelopment then ''no-cache, no-store, must-revalidate''
         else ''public, max-age='' @ string_of_int ttl @ '', immutable''),
      ETag = etag,
      Last_Modified = lastModified\<rparr>"

section \<open>StorageLayer: the file tree\<close>

text \<open>
  The tree under the base directory, per namespace: the directory \<open>icons/\<close>, one
  directory \<open>versions/<name>/\<close> per icon and the file \<open>metadata.json\<close>. A directory is
  the list of its files (name and parsed JSON content) in the order \<open>readdir\<close> reports
  them; a directory that does not exist reads as the empty one. Namespaces and icon names
  are single path segments. Reads and writes of the tree itself succeed: the
  \<open>StorageError\<close> branches of the source are outside this model.
\<close>

record IconData =
  body :: string
  width :: "real option"
  height :: "real option"
  icon_left :: "real option"
  icon_top :: "real option"
  rotate :: "real option"
  hFlip :: "bool option"
  vFlip :: "bool option"

record IconSetMetadata =
  md_prefix :: string
  md_name :: string
  md_total :: nat
  md_version :: string
  md_author :: "string option"
  md_license :: "string option"
  md_lastModified :: nat

type_synonym 'a dir = "(string \<times> 'a) list"

fun writeFile :: "'a dir \<Rightarrow> string \<Rightarrow> 'a \<Rightarrow> 'a dir" where
  "writeFile [] f x = [(f, x)]"
| "writeFile ((g, y) # rest) f x = (if g = f then (f, x) # rest else (g, y) # writeFile rest f x)"

definition readFile :: "'a dir \<Rightarrow> string \<Rightarrow> 'a option" where
  "readFile d f = map_of d f"

definition unlink :: "'a dir \<Rightarrow> string \<Rightarrow> 'a dir" where
  "unlink d f = filter (\<lambda>(g, y). g \<noteq> f) d"

definition json_names :: "'a dir \<Rightarrow> string list" where
  \<comment> \<open>\<open>files.filter(file => file.endsWith('.json')).map(file => file.replace('.json', ''))\<close>\<close>
  "json_names d =
     map (\<lambda>file. replace_first file ''.json'' []) (filter (\<lambda>file. endsWith file ''.json'') (map fst d))"

record Storage =
  icon_files :: "string \<Rightarrow> IconData dir"
  version_files :: "string \<Rightarrow> string \<Rightarrow> IconData dir"
  metadata_file :: "string \<Rightarrow> IconSetMetadata option"

definition saveIcon :: "Storage \<Rightarrow> string \<Rightarrow> string \<Rightarrow> IconData \<Rightarrow> Storage" where
  "saveIcon s namespace nm iconData =
     s\<lparr>icon_files := (icon_files s)
          (namespace := writeFile (icon_files s namespace) (nm @ ''.json'') iconData)\<rparr>"

definition readIcon :: "Storage \<Rightarrow> string \<Rightarrow> string \<Rightarrow> IconData option" where
  "readIcon s namespace nm = readFile (icon_files s namespace) (nm @ ''.json'')"

definition deleteIcon :: "Storage \<Rightarrow> string \<Rightarrow> string \<Rightarrow> Storage" where
  "deleteIcon s namespace nm =
     s\<lparr>icon_files := (icon_files s)(namespace := unlink (icon_files s namespace) (nm @ ''.json''))\<rparr>"

definition listIcons :: "Storage \<Rightarrow> string \<Rightarrow> string list" where
  "listIcons s namespace = json_names (icon_files s namespace)"

definition saveIconSetMetadata :: "Storage \<Rightarrow> string \<Rightarrow> IconSetMetadata \<Rightarrow> Storage" where
  "saveIconSetMetadata s namespace metadata =
     s\<lparr>metadata_file := (metadata_file s)(namespace := Some metadata)\<rparr>"

definition readIconSetMetadata :: "Storage \<Rightarrow> string \<Rightarrow> IconSetMetadata option" where
  "readIconSetMetadata s namespace = metadata_file s namespace"

definition saveIconVersion :: "Storage \<Rightarrow> string \<Rightarrow> string \<Rightarrow> string \<Rightarrow> IconData \<Rightarrow> Storage" where
  "saveIconVersion s namespace nm versionId iconData =
     s\<lparr>version_files := (version_files s)
          (namespace := (version_files s namespace)
             (nm := writeFile (version_files s namespace nm) (versionId @ ''.json'') iconData))\<rparr>"

definition listIconVersions :: "Storage \<Rightarrow> string \<Rightarrow> string \<Rightarrow> string list" where
  "listIconVersions s namespace nm = json_names (version_files s namespace nm)"

definition readIconVersion :: "Storage \<Rightarrow> string \<Rightarrow> string \<Rightarrow> string \<Rightarrow> IconData option" where
  "readIconVersion s namespace nm versionId =
     readFile (version_files s namespace nm) (versionId @ ''.json'')"

section \<open>IconSetManager\<close>

text \<open>
  The manager holds a storage layer and an SVG parser, both handed to its constructor;
  the parser is the parameter \<open>parser\<close> (its method \<open>parseSVG\<close>) here. Each call of \<open>Date.now()\<close> is one
  reading of the clock: the one in \<open>saveVersion\<close>, the one in \<open>incrementVersion\<close> and
  the one that stamps \<open>lastModified\<close>. An operation returns what the source returns or
  throws together with the tree as it is at that moment, since a throw undoes nothing.
\<close>

record Clock =
  at_saveVersion :: nat
  at_incrementVersion :: nat
  at_lastModified :: nat

fun split_on :: "char \<Rightarrow> string \<Rightarrow> string list" where
  \<comment> \<open>\<open>s.split(sep)\<close> with a one-character separator\<close>
  "split_on sep [] = [[]]"
| "split_on sep (c # cs) =
     (if c = sep then [] # split_on sep cs
      else (case split_on sep cs of [] \<Rightarrow> [[c]] | p # ps \<Rightarrow> (c # p) # ps))"

fun join_with :: "char \<Rightarrow> string list \<Rightarrow> string" where
  "join_with sep [] = []"
| "join_with sep [p] = p"
| "join_with sep (p # q # ps) = p @ sep # join_with sep (q # ps)"

definition incrementVersion :: "nat \<Rightarrow> string \<Rightarrow> string" where
  "incrementVersion now currentVersion =
     (let parts = split_on CHR ''.'' currentVersion in
      if length parts = 3 then
        (case parseInt10 (parts ! 2) of
           Some patch \<Rightarrow> join_with CHR ''.'' (parts[2 := string_of_int (patch + 1)])
         | None \<Rightarrow> ''1.0.'' @ string_of_nat now)
      else ''1.0.'' @ string_of_nat now)"

definition updateMetadata :: "Clock \<Rightarrow> Storage \<Rightarrow> string \<Rightarrow> Storage" where
  "updateMetadata clk s namespace =
     (let iconNames = listIcons s namespace;
          existingMetadata = readIconSetMetadata s namespace;
          metadata = \<lparr>
            md_prefix = namespace,
            md_name = (case existingMetadata of
                         Some m \<Rightarrow> if md_name m \<noteq> [] then md_name m else namespace
                       | None \<Rightarrow> namespace),
            md_total = length iconNames,
            md_version = (case existingMetadata of
                            Some m \<Rightarrow> incrementVersion (at_incrementVersion clk) (md_version m)
                          | None \<Rightarrow> ''1.0.0''),
            md_author = (case existingMetadata of Some m \<Rightarrow> md_author m | None \<Rightarrow> None),
            md_license = (case existingMetadata of Some m \<Rightarrow> md_license m | None \<Rightarrow> None),
            md_lastModified = at_lastModified clk\<rparr>
      in saveIconSetMetadata s namespace metadata)"

definition saveVersion :: "Clock \<Rightarrow> Storage \<Rightarrow> string \<Rightarrow> string \<Rightarrow> IconData \<Rightarrow> string \<times> Storage" where
  "saveVersion clk s namespace nm iconData =
     (let versionId = CHR ''v'' # string_of_nat (at_saveVersion clk)
      in (versionId, saveIconVersion s namespace nm versionId iconData))"

definition effectiveStrategy :: "string option \<Rightarrow> string option \<Rightarrow> string" where
  \<comment> \<open>\<open>options?.conflictStrategy || process.env.ICON_CONFLICT_STRATEGY || 'reject'\<close>\<close>
  "effectiveStrategy options env =
     (case options of
        Some st \<Rightarrow> if st \<noteq> [] then st
                   else (case env of Some e \<Rightarrow> if e \<noteq> [] then e else ''reject'' | None \<Rightarrow> ''reject'')
      | None \<Rightarrow> (case env of Some e \<Rightarrow> if e \<noteq> [] then e else ''reject'' | None \<Rightarrow> ''reject''))"

definition conflictMessage :: "string \<Rightarrow> string \<Rightarrow> string" where
  "conflictMessage namespace nm =
     ''Icon \"'' @ nm @ ''\" already exists in namespace \"'' @ namespace
       @ ''\". Use overwrite strategy to replace it.''"

definition addIcon ::
  "(string \<Rightarrow> js_error + IconData) \<Rightarrow> Clock \<Rightarrow> string option \<Rightarrow> Storage
     \<Rightarrow> string \<Rightarrow> string \<Rightarrow> string \<Rightarrow> string option \<Rightarrow> (js_error + unit) \<times> Storage" where
  "addIcon parser clk env s namespace nm svg options =
     (let existingIcon = readIcon s namespace nm;
          conflictStrategy = effectiveStrategy options env;
          checked =
            (case existingIcon of
               Some icon \<Rightarrow>
                 if conflictStrategy = ''reject'' then Inl (ConflictError (conflictMessage namespace nm))
                 else if conflictStrategy = ''overwrite''
                   then Inr (snd (saveVersion clk s namespace nm icon))
                 else Inr s
             | None \<Rightarrow> Inr s)
      in case checked of
           Inl e \<Rightarrow> (Inl e, s)
         | Inr s1 \<Rightarrow>
             (case parser svg of
                Inl e \<Rightarrow> (Inl e, s1)
              | Inr iconData \<Rightarrow> (Inr (), updateMetadata clk (saveIcon s1 namespace nm iconData) namespace)))"

definition getIcon :: "Storage \<Rightarrow> string \<Rightarrow> string \<Rightarrow> IconData option" where
  "getIcon s namespace nm = readIcon s namespace nm"

record Version =
  v_id :: string
  v_timestamp :: int
  v_data :: IconData

definition version_entry :: "string \<Rightarrow> IconData \<Rightarrow> Version" where
  \<comment> \<open>the object pushed for a version id whose file was read: the timestamp is
      \<open>parseInt(versionId.substring(1), 10)\<close>, or 0 when that is NaN\<close>
  "version_entry versionId d =
     \<lparr>v_id = versionId,
      v_timestamp = (case parseInt10 (drop 1 versionId) of None \<Rightarrow> 0 | Some t \<Rightarrow> t),
      v_data = d\<rparr>"

definition getVersionHistory :: "Storage \<Rightarrow> string \<Rightarrow> string \<Rightarrow> Version list" where
  \<comment> \<open>\<open>versions.sort((a, b) => b.timestamp - a.timestamp)\<close>: \<open>Array.prototype.sort\<close> is
      stable, and so is \<open>sort_key\<close>\<close>
  "getVersionHistory s namespace nm =
     (let versionIds = listIconVersions s namespace nm;
          versions = concat (map (\<lambda>versionId.
            case readIconVersion s namespace nm versionId of
              Some d \<Rightarrow> [version_entry versionId d]
            | None \<Rightarrow> []) versionIds)
      in sort_key (\<lambda>v. - v_timestamp v) versions)"

definition rollbackToVersion ::
  "Clock \<Rightarrow> Storage \<Rightarrow> string \<Rightarrow> string \<Rightarrow> string \<Rightarrow> (js_error + unit) \<times> Storage" where
  "rollbackToVersion clk s namespace nm versionId =
     (case readIconVersion s namespace nm versionId of
        None \<Rightarrow> (Inl (PlainError (''Version not found: '' @ versionId)), s)
      | Some versionData \<Rightarrow>
          (let s1 = (case readIcon s namespace nm of
                       Some currentIcon \<Rightarrow> snd (saveVersion clk s namespace nm currentIcon)
                     | None \<Rightarrow> s);
               s2 = saveIcon s1 namespace nm versionData
           in (Inr (), updateMetadata clk s2 namespace)))"

section \<open>FigmaIntegrator: synchronisation\<close>

record FigmaComponent =
  c_id :: string
  c_name :: string
  c_type :: string
  c_description :: "string option"
  c_componentId :: "string option"

record SyncResult =
  success :: nat
  failed :: nat
  errors :: "(string \<times> string) list"

record IconSet =
  is_prefix :: string
  is_icons :: "string \<Rightarrow> IconData option"
  is_lastModified :: nat

definition loadIconSet :: "nat \<Rightarrow> Storage \<Rightarrow> string \<Rightarrow> IconSet" where
  \<comment> \<open>\<open>now\<close> is the reading of \<open>Date.now()\<close> used when there is no metadata\<close>
  "loadIconSet now s namespace =
     (let iconNames = listIcons s namespace;
          icons = foldl (\<lambda>m nm. case readIcon s namespace nm of
                                    Some iconData \<Rightarrow> m(nm := Some iconData)
                                  | None \<Rightarrow> m) (\<lambda>nm. None) iconNames;
          metadata = readIconSetMetadata s namespace
      in \<lparr>is_prefix = namespace,
          is_icons = icons,
          is_lastModified = (case metadata of
                               Some m \<Rightarrow> if md_lastModified m \<noteq> 0 then md_lastModified m else now
                             | None \<Rightarrow> now)\<rparr>)"

definition getAllIcons :: "nat \<Rightarrow> Storage \<Rightarrow> string \<Rightarrow> IconSet" where
  "getAllIcons now s namespace = loadIconSet now s namespace"

fun strip_icon_prefix :: "string \<Rightarrow> string" where
  \<comment> \<open>\<open>.replace(/^icon[-_]/i, '')\<close>\<close>
  "strip_icon_prefix (a # b # c # d # e # rest) =
     (if toLowerCase [a, b, c, d] = ''icon'' \<and> (e = CHR ''-'' \<or> e = CHR ''_'') then rest
      else a # b # c # d # e # rest)"
| "strip_icon_prefix s = s"

function collapse_ws :: "string \<Rightarrow> string" where
  \<comment> \<open>\<open>.replace(/\s+/g, '-')\<close>\<close>
  "collapse_ws [] = []"
| "collapse_ws (c # cs) =
     (if is_ws c then CHR ''-'' # collapse_ws (dropWhile is_ws cs) else c # collapse_ws cs)"
  by pat_completeness auto
termination
  by (relation "measure length") (auto simp: less_Suc_eq_le length_dropWhile_le)

definition is_slug_char :: "char \<Rightarrow> bool" where
  "is_slug_char c = (c \<in> set ''abcdefghijklmnopqrstuvwxyz0123456789-_'')"

definition toIconName :: "string \<Rightarrow> string \<Rightarrow> string" where
  \<comment> \<open>the icon name \<open>syncIcon\<close> and \<open>syncAllIcons\<close> both derive from a component's name,
      with the fallback \<open>`icon-${componentId.substring(0, 8)}`\<close>\<close>
  "toIconName componentName componentId =
     (let iconName = filter is_slug_char (collapse_ws (toLowerCase (strip_icon_prefix componentName)))
      in if iconName = [] then ''icon-'' @ take 8 componentId else iconName)"

text \<open>
  What a run meets outside the process: whether \<open>connect\<close> has succeeded, the token and
  the file id of the integrator; what axios returns or throws at the \<open>k\<close>-th attempt of a
  request for the file (the \<open>data\<close>, when there is one), for the export URLs of a
  component (the \<open>images\<close> object, when there is one) and for a download, \<open>k\<close> counted per
  call of \<open>executeWithRetry\<close>; the parser of the icon set manager; the clock readings of
  the \<open>i\<close>-th component's \<open>addIcon\<close>, the reading used by \<open>getAllIcons\<close>, and the
  environment's conflict strategy.
\<close>

datatype FigmaNode =
  FigmaNode (n_type: string) (n_id: string) (n_name: string) (n_description: "string option")
    (n_componentId: "string option") (n_children: "FigmaNode list")

record FigmaFile =
  f_document :: "FigmaNode option"
  f_components :: "(string \<times> string \<times> string option) list"

record SyncEnv =
  isConnected :: bool
  apiToken :: string
  fileId :: string
  filesGet :: "string \<times> AxiosRequestConfig \<Rightarrow> nat \<Rightarrow> js_error + FigmaFile option"
  imagesGet :: "string \<times> AxiosRequestConfig \<Rightarrow> nat \<Rightarrow> js_error + (string \<times> string) list option"
  download :: "string \<times> AxiosRequestConfig \<Rightarrow> nat \<Rightarrow> js_error + string"
  svgParser :: "string \<Rightarrow> js_error + IconData"
  clockAt :: "nat \<Rightarrow> Clock"
  loadTime :: nat
  envStrategy :: "string option"

definition notConnected :: js_error where
  "notConnected = PlainError ''Not connected to Figma API. Call connect() first.''"

fun extractComponents :: "FigmaNode \<Rightarrow> FigmaComponent list" where
  "extractComponents (FigmaNode ty i nm d cid children) =
     (if ty = ''COMPONENT''
      then [\<lparr>c_id = i, c_name = nm, c_type = ty, c_description = d, c_componentId = None\<rparr>]
      else [])
     @ concat (map extractComponents children)"

fun extractInstances :: "FigmaNode \<Rightarrow> FigmaComponent list" where
  "extractInstances (FigmaNode ty i nm d cid children) =
     (if ty = ''INSTANCE'' \<and> cid \<noteq> None \<and> cid \<noteq> Some []
      then [\<lparr>c_id = i, c_name = nm, c_type = ''INSTANCE'',
             c_description = Some (case d of Some x \<Rightarrow> x | None \<Rightarrow> []), c_componentId = cid\<rparr>]
      else [])
     @ concat (map extractInstances children)"

definition componentsOf :: "FigmaFile \<Rightarrow> FigmaComponent list" where
  \<comment> \<open>the components \<open>fetchIconComponents\<close> collects from the response: the instances of
      the document tree, then the published components no instance refers to, then the
      component definitions of the tree that are not in the list yet\<close>
  "componentsOf file =
     (let instances = (case f_document file of Some doc \<Rightarrow> extractInstances doc | None \<Rightarrow> []);
          published =
            concat (map (\<lambda>(cid, nm, d).
              if list_ex (\<lambda>c. c_componentId c = Some cid) instances then []
              else [\<lparr>c_id = cid, c_name = nm, c_type = ''COMPONENT'',
                     c_description = Some (case d of Some x \<Rightarrow> x | None \<Rightarrow> []),
                     c_componentId = None\<rparr>]) (f_components file));
          treeComponents = (case f_document file of Some doc \<Rightarrow> extractComponents doc | None \<Rightarrow> [])
      in foldl (\<lambda>components treeComp.
                  if list_ex (\<lambda>c. c_id c = c_id treeComp \<or> c_componentId c = Some (c_id treeComp))
                       components
                  then components else components @ [treeComp])
           (instances @ published) treeComponents)"

definition fetchIconComponents :: "SyncEnv \<Rightarrow> js_error + FigmaComponent list" where
  "fetchIconComponents env =
     (if \<not> isConnected env then Inl notConnected
      else case fst (executeWithRetry (\<lambda>k.
                  case filesGet env (filesRequest (apiToken env) (fileId env)) k of
                    Inl e \<Rightarrow> Inl e
                  | Inr None \<Rightarrow> Inl (PlainError ''Invalid Figma file structure'')
                  | Inr (Some file) \<Rightarrow> Inr file)) of
        Inl e \<Rightarrow> Inl e
      | Inr file \<Rightarrow> Inr (componentsOf file))"

definition filterIconComponents :: "FigmaComponent list \<Rightarrow> FigmaComponent list" where
  "filterIconComponents components =
     filter (\<lambda>component.
       let nameLower = toLowerCase (c_name component);
           descriptionLower = toLowerCase (case c_description component of Some x \<Rightarrow> x | None \<Rightarrow> [])
       in startsWith nameLower ''icon-'' \<or> startsWith nameLower ''icon_''
          \<or> str_includes nameLower ''icon''
          \<or> str_includes descriptionLower ''icon'' \<or> str_includes descriptionLower ''#icon'') components"

definition fetchIconComponentsWithPagination :: "SyncEnv \<Rightarrow> bool \<Rightarrow> js_error + FigmaComponent list" where
  "fetchIconComponentsWithPagination env filterIcons =
     (if \<not> isConnected env then Inl notConnected
      else case fetchIconComponents env of
        Inl e \<Rightarrow> Inl e
      | Inr allComponents \<Rightarrow>
          Inr (if filterIcons then filterIconComponents allComponents else allComponents))"

definition exportComponentAsSVG :: "SyncEnv \<Rightarrow> string \<Rightarrow> js_error + string" where
  "exportComponentAsSVG env componentId =
     (if \<not> isConnected env then Inl notConnected
      else if componentId = [] then Inl (PlainError ''Component ID is required'')
      else case fst (executeWithRetry (\<lambda>k.
                  case imagesGet env (imagesRequest (apiToken env) (fileId env) componentId) k of
                    Inl e \<Rightarrow> Inl e
                  | Inr None \<Rightarrow> Inl (PlainError ''Invalid response from Figma images API'')
                  | Inr (Some images) \<Rightarrow>
                      (case map_of images componentId of
                         Some svgUrl \<Rightarrow>
                           if svgUrl \<noteq> [] then Inr svgUrl
                           else Inl (PlainError (''No SVG URL returned for component '' @ componentId))
                       | None \<Rightarrow>
                           Inl (PlainError (''No SVG URL returned for component '' @ componentId))))) of
        Inl e \<Rightarrow> Inl e
      | Inr svgUrl \<Rightarrow>
          (case fst (executeWithRetry (\<lambda>k.
                  case download env (downloadRequest svgUrl) k of
                    Inl e \<Rightarrow> Inl e
                  | Inr content \<Rightarrow>
                      if content = [] then Inl (PlainError ''Invalid SVG content received'')
                      else Inr content)) of
             Inl e \<Rightarrow> Inl e
           | Inr svgContent \<Rightarrow> Inr svgContent))"

definition syncIcon ::
  "SyncEnv \<Rightarrow> nat \<Rightarrow> Storage \<Rightarrow> string \<Rightarrow> string \<Rightarrow> string \<Rightarrow> (js_error + unit) \<times> Storage" where
  "syncIcon env i s componentId componentName namespace =
     (if \<not> isConnected env then (Inl notConnected, s)
      else case exportComponentAsSVG env componentId of
        Inl e \<Rightarrow> (Inl e, s)
      | Inr svg \<Rightarrow>
          addIcon (svgParser env) (clockAt env i) (envStrategy env) s namespace
            (toIconName componentName componentId) svg (Some ''overwrite''))"

fun sync_loop ::
  "SyncEnv \<Rightarrow> string \<Rightarrow> bool \<Rightarrow> (string \<Rightarrow> IconData option) option
     \<Rightarrow> FigmaComponent list \<Rightarrow> nat \<Rightarrow> SyncResult \<times> Storage \<Rightarrow> SyncResult \<times> Storage" where
  \<comment> \<open>the loop over \<open>iconComponents\<close>; \<open>i\<close> counts the components\<close>
  "sync_loop env namespace incremental existingIcons [] i (result, s) = (result, s)"
| "sync_loop env namespace incremental existingIcons (component # rest) i (result, s) =
     (let iconName = toIconName (c_name component) (c_id component) in
      if incremental \<and> (case existingIcons of Some icons \<Rightarrow> icons iconName \<noteq> None | None \<Rightarrow> False)
      then sync_loop env namespace incremental existingIcons rest (i + 1)
             (result\<lparr>success := success result + 1\<rparr>, s)
      else (case syncIcon env i s (c_id component) (c_name component) namespace of
              (Inr u, s') \<Rightarrow>
                sync_loop env namespace incremental existingIcons rest (i + 1)
                  (result\<lparr>success := success result + 1\<rparr>, s')
            | (Inl syncError, s') \<Rightarrow>
                sync_loop env namespace incremental existingIcons rest (i + 1)
                  (result\<lparr>failed := failed result + 1,
                          errors := errors result @ [(c_id component, error_message syncError)]\<rparr>, s')))"

definition syncAllIcons ::
  "SyncEnv \<Rightarrow> Storage \<Rightarrow> string \<Rightarrow> bool \<Rightarrow> (js_error + SyncResult) \<times> Storage" where
  "syncAllIcons env s namespace incremental =
     (if \<not> isConnected env then (Inl notConnected, s)
      else case fetchIconComponentsWithPagination env False of
        Inl e \<Rightarrow>
          (Inr \<lparr>success = 0, failed = 0,
                errors = [(''N/A'', ''Failed to fetch components: '' @ error_message e)]\<rparr>, s)
      | Inr iconComponents \<Rightarrow>
          if iconComponents = [] then (Inr \<lparr>success = 0, failed = 0, errors = []\<rparr>, s)
          else
            (let existingIcons =
                   (if incremental then Some (is_icons (getAllIcons (loadTime env) s namespace))
                    else None)
             in case sync_loop env namespace incremental existingIcons iconComponents 0
                       (\<lparr>success = 0, failed = 0, errors = []\<rparr>, s) of
                  (result, s') \<Rightarrow> (Inr result, s')))"

definition iconNameOf :: "FigmaComponent \<Rightarrow> string" where
  "iconNameOf component = toIconName (c_name component) (c_id component)"

definition component_data :: "SyncEnv \<Rightarrow> FigmaComponent \<Rightarrow> IconData option" where
  \<comment> \<open>the icon a component's export parses to, when the export and the parser both succeed\<close>
  "component_data env component =
     (case exportComponentAsSVG env (c_id component) of
        Inl e \<Rightarrow> None
      | Inr svg \<Rightarrow> (case svgParser env svg of Inl e \<Rightarrow> None | Inr d \<Rightarrow> Some d))"

definition skipped :: "bool \<Rightarrow> (string \<Rightarrow> IconData option) option \<Rightarrow> FigmaComponent \<Rightarrow> bool" where
  \<comment> \<open>the test of the incremental branch: the component's icon name is among the icons
      loaded before the loop\<close>
  "skipped incremental existingIcons component =
     (incremental \<and> (case existingIcons of
                        Some icons \<Rightarrow> icons (iconNameOf component) \<noteq> None
                      | None \<Rightarrow> False))"


section \<open>SVGParser\<close>











definition lookahead_ok :: "string \<Rightarrow> bool" where
  \<comment> \<open>the negative lookahead \<open>(?!none|currentColor)\<close> under the flag \<open>i\<close>\<close>
  "lookahead_ok rest =
     (\<not> startsWith (toLowerCase rest) ''none'' \<and> \<not> startsWith (toLowerCase rest) ''currentcolor'')"

definition color_attr :: "string \<Rightarrow> string \<Rightarrow> (string \<times> nat) option" where
  \<comment> \<open>\<open>/a="(?!none|currentColor)([^"]*)"/gi\<close> at the head of \<open>t\<close>, with its replacement
      \<open>a="currentColor"\<close>\<close>
  "color_attr a t =
     (let n = length a + 2;
          rest = drop n t;
          v = takeWhile (\<lambda>c. c \<noteq> CHR 0x22) rest
      in if toLowerCase (take n t) = a @ ''=\"'' \<and> lookahead_ok rest \<and> length v < length rest
         then Some (a @ ''=\"currentColor\"'', n + length v + 1) else None)"




















section \<open>Example data\<close>

definition ex_icon :: "string \<Rightarrow> IconData" where
  "ex_icon b = \<lparr>body = b, width = Some 24, height = Some 24, icon_left = None, icon_top = None,
     rotate = None, hFlip = None, vFlip = None\<rparr>"

definition ex_store :: Storage where
  "ex_store = \<lparr>
     icon_files = (\<lambda>ns. if ns = ''gd'' then [(''home.json'', ex_icon ''<path d=\"M3 3\"/>'')] else []),
     version_files = (\<lambda>ns nm. if ns = ''gd'' \<and> nm = ''home''
        then [(''v100.json'', ex_icon ''<path d=\"M0 0\"/>''),
              (''v300.json'', ex_icon ''<path d=\"M1 1\"/>''),
              (''vabc.json'', ex_icon ''<path d=\"M9 9\"/>''),
              (''v200.json'', ex_icon ''<path d=\"M2 2\"/>'')]
        else []),
     metadata_file = (\<lambda>ns. None)\<rparr>"

definition ex_store_md :: Storage where
  \<comment> \<open>\<open>ex_store\<close> with a metadata file for the namespace \<open>gd\<close>\<close>
  "ex_store_md = ex_store\<lparr>metadata_file := (\<lambda>ns. if ns = ''gd''
       then Some \<lparr>md_prefix = ''gd'', md_name = ''Icons'', md_total = 1, md_version = ''1.0.4'',
                  md_author = None, md_license = Some ''MIT'', md_lastModified = 50\<rparr>
       else None)\<rparr>"

definition ex_clock :: Clock where
  "ex_clock = \<lparr>at_saveVersion = 400, at_incrementVersion = 401, at_lastModified = 402\<rparr>"

definition ex_component :: "string \<Rightarrow> string \<Rightarrow> FigmaComponent" where
  "ex_component cid nm =
     \<lparr>c_id = cid, c_name = nm, c_type = ''INSTANCE'', c_description = Some [],
      c_componentId = Some ''9:1''\<rparr>"

definition ex_server_error :: js_error where
  "ex_server_error = AxiosError (Some ''ERR_BAD_RESPONSE'') ''Request failed with status code 500'' (Some 500)"

definition ex_file :: "FigmaComponent list \<Rightarrow> FigmaFile" where
  \<comment> \<open>a file whose document holds one instance node for each of the components\<close>
  "ex_file comps =
     \<lparr>f_document = Some (FigmaNode ''DOCUMENT'' ''0:0'' ''Document'' None None
        (map (\<lambda>c. FigmaNode ''INSTANCE'' (c_id c) (c_name c) None (c_componentId c) []) comps)),
      f_components = []\<rparr>"

definition ex_env :: "FigmaComponent list \<Rightarrow> string \<Rightarrow> SyncEnv" where
  \<comment> \<open>a connected source whose file is \<open>ex_file comps\<close> and whose export of the
      component \<open>failing\<close> meets a server error at every attempt\<close>
  "ex_env comps failing =
     \<lparr>isConnected = True,
      apiToken = ''figd_token'',
      fileId = ''FILE1'',
      filesGet = (\<lambda>request k. Inr (Some (ex_file comps))),
      imagesGet = (\<lambda>request k.
         case map_of (cfg_params (snd request)) ''ids'' of
           Some cid \<Rightarrow> if cid = failing then Inl ex_server_error
                       else Inr (Some [(cid, ''u/'' @ cid)])
         | None \<Rightarrow> Inr None),
      download = (\<lambda>request k. Inr (''<svg><path d=\"'' @ fst request @ ''\"/></svg>'')),
      svgParser = (\<lambda>svg. Inr (ex_icon svg)),
      clockAt = (\<lambda>i. \<lparr>at_saveVersion = 1000 + i, at_incrementVersion = 1000 + i,
                       at_lastModified = 1000 + i\<rparr>),
      loadTime = 999,
      envStrategy = None\<rparr>"

definition ex_timeout :: js_error where
  "ex_timeout = AxiosError (Some ''ECONNABORTED'') ''timeout of 30000ms exceeded'' None"

definition ex_env_down :: SyncEnv where
  \<comment> \<open>a connected source whose every request ends in a timeout\<close>
  "ex_env_down =
     \<lparr>isConnected = True,
      apiToken = ''figd_token'',
      fileId = ''FILE1'',
      filesGet = (\<lambda>request k. Inl ex_timeout),
      imagesGet = (\<lambda>request k. Inl ex_timeout),
      download = (\<lambda>request k. Inl ex_timeout),
      svgParser = (\<lambda>svg. Inr (ex_icon svg)),
      clockAt = (\<lambda>i. ex_clock),
      loadTime = 999,
      envStrategy = None\<rparr>"


section \<open>Verified properties\<close>

subsection \<open>The retry policy\<close>












subsection \<open>The cache headers\<close>

text \<open>
  Claim C8, as the source has it. In development mode the \<open>Cache-Control\<close> value is
  \<open>no-cache, no-store, must-revalidate\<close>, which contains \<open>no-store\<close>; otherwise it is
  \<open>public, max-age=<ttl>, immutable\<close> with the manager's own TTL, whatever that is; the
  default TTL is 86400 seconds, which is at least 3600.
\<close>

theorem getCacheHeaders_cache_control:
  "Cache_Control (getCacheHeaders ttl etag lastModified True) = ''no-cache, no-store, must-revalidate''
   \<and> str_includes (Cache_Control (getCacheHeaders ttl etag lastModified True)) ''no-store''
   \<and> Cache_Control (getCacheHeaders ttl etag lastModified False)
       = ''public, max-age='' @ string_of_int ttl @ '', immutable''
   \<and> Cache_Control (getCacheHeaders default_ttl etag lastModified False)
       = ''public, max-age=86400, immutable''
   \<and> 3600 \<le> default_ttl"
proof -
  have "string_of_int 86400 = ''86400''"
    by (simp add: string_of_int_def string_of_nat.simps digit_char_def)
  then show ?thesis
    by (simp add: getCacheHeaders_def default_ttl_def)
qed

text \<open>
  A manager constructed with a TTL of 60 seconds advertises \<open>max-age=60\<close> in
  non-development mode, which is less than one hour.
\<close>

theorem getCacheHeaders_short_ttl_counterexample:
  "Cache_Control (getCacheHeaders 60 ''\"0\"'' ''Thu, 01 Jan 1970 00:00:00 GMT'' False)
     = ''public, max-age=60, immutable'' \<and> \<not> (3600 \<le> (60::int))"
  by (simp add: getCacheHeaders_def string_of_int_def string_of_nat.simps digit_char_def)

subsection \<open>The storage layer and the icon set manager\<close>

lemma readFile_writeFile: "readFile (writeFile d f x) g = (if g = f then Some x else readFile d g)"
  by (induction d f x rule: writeFile.induct) (auto simp: readFile_def)

lemma names_writeFile:
  "map fst (writeFile d f x) = (if f \<in> fst ` set d then map fst d else map fst d @ [f])"
  by (induction d f x rule: writeFile.induct) (auto simp: image_iff)

lemma startsWith_append: "startsWith (p @ s) p"
  by (induction p) auto

lemma endsWith_append: "endsWith (s @ p) p"
  by (simp add: endsWith_def startsWith_append)

lemma replace_first_json:
  "CHR ''.'' \<notin> set v \<Longrightarrow> replace_first (v @ ''.json'') ''.json'' [] = v"
  by (induction v) auto

lemma digit_char_in: "d < 10 \<Longrightarrow> digit_char d \<in> set ''0123456789''"
  unfolding digit_char_def by (rule nth_mem) simp

lemma string_of_nat_chars: "set (string_of_nat n) \<subseteq> set ''0123456789''"
proof (induction n rule: string_of_nat.induct)
  case (1 n)
  show ?case
  proof (cases "n < 10")
    case True
    then show ?thesis using digit_char_in[of n] by (simp add: string_of_nat.simps[of n])
  next
    case False
    have "n mod 10 < 10" by simp
    from digit_char_in[OF this] 1[OF False] False show ?thesis
      by (simp add: string_of_nat.simps[of n])
  qed
qed

lemma versionId_no_dot: "CHR ''.'' \<notin> set (CHR ''v'' # string_of_nat t)"
  using string_of_nat_chars[of t] by auto

lemma json_names_mem:
  "CHR ''.'' \<notin> set v \<Longrightarrow> (v @ ''.json'') \<in> fst ` set d \<Longrightarrow> v \<in> set (json_names d)"
proof -
  assume nd: "CHR ''.'' \<notin> set v" and m: "(v @ ''.json'') \<in> fst ` set d"
  have "replace_first (v @ ''.json'') ''.json'' [] \<in> set (json_names d)"
    unfolding json_names_def using m endsWith_append[of v "''.json''"] by (simp add: image_iff) blast
  with nd show ?thesis by (simp add: replace_first_json)
qed

lemma readFile_Some_mem: "readFile d f = Some x \<Longrightarrow> f \<in> fst ` set d"
  unfolding readFile_def by (metis domI dom_map_of_conv_image_fst)


lemma readIcon_saveIcon:
  "readIcon (saveIcon s ns nm d) ns' nm' = (if ns' = ns \<and> nm' = nm then Some d else readIcon s ns' nm')"
  by (simp add: readIcon_def saveIcon_def readFile_writeFile)

lemma readIcon_saveIconVersion [simp]: "readIcon (saveIconVersion s ns nm vid d) ns' nm' = readIcon s ns' nm'"
  by (simp add: readIcon_def saveIconVersion_def)

lemma readIcon_updateMetadata [simp]: "readIcon (updateMetadata clk s ns) ns' nm' = readIcon s ns' nm'"
  by (simp add: readIcon_def updateMetadata_def saveIconSetMetadata_def Let_def)

lemma listIcons_updateMetadata [simp]: "listIcons (updateMetadata clk s ns) ns' = listIcons s ns'"
  by (simp add: listIcons_def updateMetadata_def saveIconSetMetadata_def Let_def)

lemma version_files_saveIcon [simp]: "version_files (saveIcon s ns nm d) = version_files s"
  by (simp add: saveIcon_def)

lemma version_files_updateMetadata [simp]: "version_files (updateMetadata clk s ns) = version_files s"
  by (simp add: updateMetadata_def saveIconSetMetadata_def Let_def)

lemma icon_files_updateMetadata [simp]: "icon_files (updateMetadata clk s ns) = icon_files s"
  by (simp add: updateMetadata_def saveIconSetMetadata_def Let_def)

lemma icon_files_saveIconVersion [simp]: "icon_files (saveIconVersion s ns nm vid d) = icon_files s"
  by (simp add: saveIconVersion_def)

lemma metadata_file_saveIconVersion [simp]: "metadata_file (saveIconVersion s ns nm vid d) = metadata_file s"
  by (simp add: saveIconVersion_def)

lemma metadata_file_saveIcon [simp]: "metadata_file (saveIcon s ns nm d) = metadata_file s"
  by (simp add: saveIcon_def)

lemma readIconVersion_cong: "version_files s' = version_files s \<Longrightarrow> readIconVersion s' = readIconVersion s"
  by (intro ext) (simp add: readIconVersion_def)

lemma listIconVersions_cong: "version_files s' = version_files s \<Longrightarrow> listIconVersions s' = listIconVersions s"
  by (intro ext) (simp add: listIconVersions_def)

lemma readIconVersion_saveIconVersion:
  "readIconVersion (saveIconVersion s ns nm vid d) ns' nm' vid' =
     (if ns' = ns \<and> nm' = nm \<and> vid' = vid then Some d else readIconVersion s ns' nm' vid')"
  by (simp add: readIconVersion_def saveIconVersion_def readFile_writeFile)

lemma listIconVersions_saveIconVersion_mem:
  "CHR ''.'' \<notin> set vid \<Longrightarrow> vid \<in> set (listIconVersions (saveIconVersion s ns nm vid d) ns nm)"
  unfolding listIconVersions_def
  by (rule json_names_mem, assumption, rule readFile_Some_mem[where x = d])
     (simp add: saveIconVersion_def readFile_writeFile)

lemma set_getVersionHistory:
  "set (getVersionHistory s ns nm) =
     {version_entry vid d | vid d. vid \<in> set (listIconVersions s ns nm) \<and> readIconVersion s ns nm vid = Some d}"
  by (auto simp: getVersionHistory_def Let_def split: option.splits) metis+

lemma length_getVersionHistory:
  "length (getVersionHistory s ns nm) =
     length (filter (\<lambda>vid. readIconVersion s ns nm vid \<noteq> None) (listIconVersions s ns nm))"
proof -
  have "length (concat (map (\<lambda>vid. case readIconVersion s ns nm vid of
              Some d \<Rightarrow> [version_entry vid d] | None \<Rightarrow> []) xs))
        = length (filter (\<lambda>vid. readIconVersion s ns nm vid \<noteq> None) xs)" for xs
    by (induction xs) (auto split: option.splits)
  then show ?thesis
    by (simp add: getVersionHistory_def Let_def)
qed

lemma sorted_getVersionHistory:
  "sorted_wrt (\<lambda>a b. v_timestamp b \<le> v_timestamp a) (getVersionHistory s ns nm)"
proof -
  have "sorted (map (\<lambda>v. - v_timestamp v) (getVersionHistory s ns nm))"
    by (simp add: getVersionHistory_def Let_def)
  then show ?thesis by (simp add: sorted_map)
qed

text \<open>
  Claim C1. Let an icon be stored under the name. With the effective strategy \<open>reject\<close>
  (the default when neither the options nor the environment name one) \<open>addIcon\<close> throws
  the \<open>ConflictError\<close> (code \<open>CONFLICT\<close>, status 409) and the tree is as before: the
  stored icon, every version and the metadata. With \<open>overwrite\<close> and an SVG the parser
  accepts, the call returns, the icon that was stored is the version
  \<open>v<time of the snapshot>\<close>, which \<open>listIconVersions\<close> lists and \<open>getVersionHistory\<close>
  returns, every other version id reads as before, and \<open>getIcon\<close> returns the new icon.
\<close>

theorem addIcon_conflict_policy:
  assumes ex: "readIcon s ns nm = Some old"
  shows "(effectiveStrategy options env = ''reject'' \<longrightarrow>
            addIcon parser clk env s ns nm svg options
              = (Inl (AppError ''CONFLICT'' 409 (conflictMessage ns nm)), s))
       \<and> (effectiveStrategy options env = ''overwrite'' \<and> parser svg = Inr new \<longrightarrow>
            (case addIcon parser clk env s ns nm svg options of (res, s') \<Rightarrow>
               res = Inr () \<and> getIcon s' ns nm = Some new
               \<and> CHR ''v'' # string_of_nat (at_saveVersion clk) \<in> set (listIconVersions s' ns nm)
               \<and> readIconVersion s' ns nm (CHR ''v'' # string_of_nat (at_saveVersion clk)) = Some old
               \<and> version_entry (CHR ''v'' # string_of_nat (at_saveVersion clk)) old
                    \<in> set (getVersionHistory s' ns nm)
               \<and> (\<forall>w. w \<noteq> CHR ''v'' # string_of_nat (at_saveVersion clk) \<longrightarrow>
                      readIconVersion s' ns nm w = readIconVersion s ns nm w)))
       \<and> effectiveStrategy None None = ''reject''"
proof (intro conjI impI)
  assume "effectiveStrategy options env = ''reject''"
  with ex show "addIcon parser clk env s ns nm svg options
              = (Inl (AppError ''CONFLICT'' 409 (conflictMessage ns nm)), s)"
    by (simp add: addIcon_def Let_def ConflictError_def)
next
  let ?vid = "CHR ''v'' # string_of_nat (at_saveVersion clk)"
  let ?s1 = "saveIconVersion s ns nm ?vid old"
  let ?s' = "updateMetadata clk (saveIcon ?s1 ns nm new) ns"
  assume a: "effectiveStrategy options env = ''overwrite'' \<and> parser svg = Inr new"
  with ex have r: "addIcon parser clk env s ns nm svg options = (Inr (), ?s')"
    by (simp add: addIcon_def Let_def saveVersion_def)
  have vf: "version_files ?s' = version_files ?s1" by simp
  have m: "?vid \<in> set (listIconVersions ?s' ns nm)"
    using listIconVersions_saveIconVersion_mem[OF versionId_no_dot]
    by (simp add: listIconVersions_cong[OF vf])
  have rv: "readIconVersion ?s' ns nm ?vid = Some old"
    by (simp add: readIconVersion_cong[OF vf] readIconVersion_saveIconVersion)
  have h: "version_entry ?vid old \<in> set (getVersionHistory ?s' ns nm)"
    unfolding set_getVersionHistory using m rv by blast
  have others: "\<forall>w. w \<noteq> ?vid \<longrightarrow> readIconVersion ?s' ns nm w = readIconVersion s ns nm w"
    by (simp add: readIconVersion_cong[OF vf] readIconVersion_saveIconVersion)
  have cur: "getIcon ?s' ns nm = Some new"
    by (simp add: getIcon_def readIcon_saveIcon)
  from m rv h others cur show "case addIcon parser clk env s ns nm svg options of (res, s') \<Rightarrow>
               res = Inr () \<and> getIcon s' ns nm = Some new
               \<and> ?vid \<in> set (listIconVersions s' ns nm)
               \<and> readIconVersion s' ns nm ?vid = Some old
               \<and> version_entry ?vid old \<in> set (getVersionHistory s' ns nm)
               \<and> (\<forall>w. w \<noteq> ?vid \<longrightarrow> readIconVersion s' ns nm w = readIconVersion s ns nm w)"
    unfolding r by simp
next
  show "effectiveStrategy None None = ''reject''" by (simp add: effectiveStrategy_def)
qed

theorem addIcon_conflict_policy_witness:
  "readIcon ex_store ''gd'' ''home'' = Some (ex_icon ''<path d=\"M3 3\"/>'')
   \<and> addIcon (\<lambda>svg. Inr (ex_icon svg)) ex_clock None ex_store ''gd'' ''home'' ''<path d=\"M4 4\"/>'' None
       = (Inl (AppError ''CONFLICT'' 409 (conflictMessage ''gd'' ''home'')), ex_store)
   \<and> fst (addIcon (\<lambda>svg. Inr (ex_icon svg)) ex_clock None ex_store ''gd'' ''home''
            ''<path d=\"M4 4\"/>'' (Some ''overwrite'')) = Inr ()
   \<and> getIcon (snd (addIcon (\<lambda>svg. Inr (ex_icon svg)) ex_clock None ex_store ''gd'' ''home''
            ''<path d=\"M4 4\"/>'' (Some ''overwrite''))) ''gd'' ''home''
       = Some (ex_icon ''<path d=\"M4 4\"/>'')
   \<and> readIconVersion (snd (addIcon (\<lambda>svg. Inr (ex_icon svg)) ex_clock None ex_store ''gd'' ''home''
            ''<path d=\"M4 4\"/>'' (Some ''overwrite''))) ''gd'' ''home'' ''v400''
       = Some (ex_icon ''<path d=\"M3 3\"/>'')"
proof -
  have h1: "readIcon ex_store ''gd'' ''home'' = Some (ex_icon ''<path d=\"M3 3\"/>'')"
    by code_simp
  have h2: "effectiveStrategy None None = ''reject''"
    by code_simp
  have h3: "fst (addIcon (\<lambda>svg. Inr (ex_icon svg)) ex_clock None ex_store ''gd'' ''home''
            ''<path d=\"M4 4\"/>'' (Some ''overwrite'')) = Inr ()
   \<and> getIcon (snd (addIcon (\<lambda>svg. Inr (ex_icon svg)) ex_clock None ex_store ''gd'' ''home''
            ''<path d=\"M4 4\"/>'' (Some ''overwrite''))) ''gd'' ''home''
       = Some (ex_icon ''<path d=\"M4 4\"/>'')
   \<and> readIconVersion (snd (addIcon (\<lambda>svg. Inr (ex_icon svg)) ex_clock None ex_store ''gd'' ''home''
            ''<path d=\"M4 4\"/>'' (Some ''overwrite''))) ''gd'' ''home'' ''v400''
       = Some (ex_icon ''<path d=\"M3 3\"/>'')"
    by code_simp
  from addIcon_conflict_policy[OF h1, where options = None and env = None
      and parser = "\<lambda>svg. Inr (ex_icon svg)" and clk = ex_clock and svg = "''<path d=\"M4 4\"/>''"] h2
  have "addIcon (\<lambda>svg. Inr (ex_icon svg)) ex_clock None ex_store ''gd'' ''home'' ''<path d=\"M4 4\"/>'' None
       = (Inl (AppError ''CONFLICT'' 409 (conflictMessage ''gd'' ''home'')), ex_store)"
    by blast
  with h1 h3 show ?thesis by blast
qed

text \<open>
  Claim C10. Let an icon be stored under the name and let the effective strategy be a
  string other than \<open>reject\<close> and \<open>overwrite\<close>. Then \<open>addIcon\<close> takes neither branch:
  it writes no version (the version directories and the version history are as before),
  and with an SVG the parser accepts it returns and the new icon is the current one; it
  throws only what the parser throws, and then the tree is unchanged.
\<close>

theorem addIcon_unknown_strategy:
  assumes ex: "readIcon s ns nm = Some old"
      and st: "effectiveStrategy options env \<noteq> ''reject''" "effectiveStrategy options env \<noteq> ''overwrite''"
  shows "(case addIcon parser clk env s ns nm svg options of (res, s') \<Rightarrow>
            version_files s' = version_files s
            \<and> getVersionHistory s' ns nm = getVersionHistory s ns nm
            \<and> (\<forall>new. parser svg = Inr new \<longrightarrow> res = Inr () \<and> getIcon s' ns nm = Some new)
            \<and> (\<forall>e. parser svg = Inl e \<longrightarrow> res = Inl e \<and> s' = s))"
proof (cases "parser svg")
  case (Inl e)
  with ex st have r: "addIcon parser clk env s ns nm svg options = (Inl e, s)"
    by (simp add: addIcon_def Let_def)
  show ?thesis unfolding r using Inl by simp
next
  case (Inr new)
  let ?s' = "updateMetadata clk (saveIcon s ns nm new) ns"
  from Inr ex st have r: "addIcon parser clk env s ns nm svg options = (Inr (), ?s')"
    by (simp add: addIcon_def Let_def)
  have vf: "version_files ?s' = version_files s" by simp
  have "getVersionHistory ?s' ns nm = getVersionHistory s ns nm"
    by (simp add: getVersionHistory_def readIconVersion_cong[OF vf] listIconVersions_cong[OF vf])
  then show ?thesis unfolding r using Inr by (simp add: getIcon_def readIcon_saveIcon)
qed


lemma digit_val_digit_char: "d < 10 \<Longrightarrow> digit_val (digit_char d) = Some d"
proof -
  assume "d < 10"
  then have "d \<in> {0,1,2,3,4,5,6,7,8,9}" by auto
  then show ?thesis by (auto simp: digit_val_def digit_char_def)
qed

lemma nat_of_digits_snoc:
  "nat_of_digits acc (xs @ [c]) = 10 * nat_of_digits acc xs + (case digit_val c of Some d \<Rightarrow> d | None \<Rightarrow> 0)"
  by (induction xs arbitrary: acc) auto

lemma nat_of_digits_string_of_nat: "nat_of_digits 0 (string_of_nat n) = n"
proof (induction n rule: string_of_nat.induct)
  case (1 n)
  show ?case
  proof (cases "n < 10")
    case True
    then show ?thesis by (simp add: string_of_nat.simps[of n] digit_val_digit_char)
  next
    case False
    have "n mod 10 < 10" by simp
    with 1[OF False] False show ?thesis
      by (simp add: string_of_nat.simps[of n] nat_of_digits_snoc digit_val_digit_char)
  qed
qed

lemma string_of_nat_nonempty: "string_of_nat n \<noteq> []"
  by (simp add: string_of_nat.simps[of n])

lemma is_digit_chars: "c \<in> set ''0123456789'' \<Longrightarrow> is_digit c \<and> \<not> is_ws c \<and> c \<noteq> CHR ''-'' \<and> c \<noteq> CHR ''+''"
  by (auto simp: is_digit_def digit_val_def is_ws_def)

lemma parseInt10_string_of_nat: "parseInt10 (string_of_nat n) = Some (int n)"
proof -
  let ?s = "string_of_nat n"
  have all: "\<forall>c \<in> set ?s. is_digit c \<and> \<not> is_ws c \<and> c \<noteq> CHR ''-'' \<and> c \<noteq> CHR ''+''"
    using string_of_nat_chars[of n] is_digit_chars by blast
  obtain c cs where cs: "?s = c # cs" using string_of_nat_nonempty[of n] by (cases ?s) auto
  have dw: "dropWhile is_ws ?s = ?s" using all cs by simp
  have tw: "takeWhile is_digit ?s = ?s" using all by (simp add: takeWhile_eq_all_conv)
  have hd: "hd ?s \<noteq> CHR ''-'' \<and> hd ?s \<noteq> CHR ''+''" using all cs by simp
  show ?thesis
    unfolding parseInt10_def Let_def dw
    by (simp add: hd tw string_of_nat_nonempty nat_of_digits_string_of_nat del: takeWhile_eq_all_conv)
qed

lemma version_entry_timestamp: "v_timestamp (version_entry (CHR ''v'' # string_of_nat t) d) = int t"
  by (simp add: version_entry_def parseInt10_string_of_nat)

theorem addIcon_unknown_strategy_witness:
  "readIcon ex_store ''gd'' ''home'' = Some (ex_icon ''<path d=\"M3 3\"/>'')
   \<and> effectiveStrategy None (Some ''merge'') = ''merge''
   \<and> fst (addIcon (\<lambda>svg. Inr (ex_icon svg)) ex_clock (Some ''merge'') ex_store ''gd'' ''home''
            ''<path d=\"M4 4\"/>'' None) = Inr ()
   \<and> getIcon (snd (addIcon (\<lambda>svg. Inr (ex_icon svg)) ex_clock (Some ''merge'') ex_store ''gd'' ''home''
            ''<path d=\"M4 4\"/>'' None)) ''gd'' ''home''
       = Some (ex_icon ''<path d=\"M4 4\"/>'')
   \<and> version_files (snd (addIcon (\<lambda>svg. Inr (ex_icon svg)) ex_clock (Some ''merge'') ex_store ''gd'' ''home''
            ''<path d=\"M4 4\"/>'' None)) = version_files ex_store"
proof -
  have h1: "readIcon ex_store ''gd'' ''home'' = Some (ex_icon ''<path d=\"M3 3\"/>'')"
    by code_simp
  have h2: "effectiveStrategy None (Some ''merge'') = ''merge''"
    by code_simp
  have h3: "effectiveStrategy None (Some ''merge'') \<noteq> ''reject''"
           "effectiveStrategy None (Some ''merge'') \<noteq> ''overwrite''"
    unfolding h2 by simp_all
  have h4: "fst (addIcon (\<lambda>svg. Inr (ex_icon svg)) ex_clock (Some ''merge'') ex_store ''gd'' ''home''
            ''<path d=\"M4 4\"/>'' None) = Inr ()
   \<and> getIcon (snd (addIcon (\<lambda>svg. Inr (ex_icon svg)) ex_clock (Some ''merge'') ex_store ''gd'' ''home''
            ''<path d=\"M4 4\"/>'' None)) ''gd'' ''home''
       = Some (ex_icon ''<path d=\"M4 4\"/>'')"
    by code_simp
  from addIcon_unknown_strategy[OF h1 h3, where parser = "\<lambda>svg. Inr (ex_icon svg)"
      and clk = ex_clock and svg = "''<path d=\"M4 4\"/>''"]
  have "version_files (snd (addIcon (\<lambda>svg. Inr (ex_icon svg)) ex_clock (Some ''merge'') ex_store ''gd'' ''home''
            ''<path d=\"M4 4\"/>'' None)) = version_files ex_store"
    by (simp add: case_prod_beta)
  with h1 h2 h4 show ?thesis by blast
qed

text \<open>
  Claim C9. \<open>getVersionHistory\<close> returns one entry for each listed version id whose file
  reads, with that file's data, ordered by timestamp, largest first; the timestamp of an
  entry is the integer \<open>parseInt\<close> reads after the first character of its id, or 0 when
  there is none, and for the id \<open>v<t>\<close> that \<open>saveVersion\<close> writes it is \<open>t\<close>.
\<close>

theorem getVersionHistory_newest_first:
  "sorted_wrt (\<lambda>a b. v_timestamp b \<le> v_timestamp a) (getVersionHistory s ns nm)
   \<and> (\<forall>v \<in> set (getVersionHistory s ns nm).
         v_id v \<in> set (listIconVersions s ns nm)
         \<and> readIconVersion s ns nm (v_id v) = Some (v_data v)
         \<and> v_timestamp v = (case parseInt10 (drop 1 (v_id v)) of None \<Rightarrow> 0 | Some t \<Rightarrow> t))
   \<and> (\<forall>vid \<in> set (listIconVersions s ns nm). \<forall>d. readIconVersion s ns nm vid = Some d \<longrightarrow>
         version_entry vid d \<in> set (getVersionHistory s ns nm))
   \<and> length (getVersionHistory s ns nm)
       = length (filter (\<lambda>vid. readIconVersion s ns nm vid \<noteq> None) (listIconVersions s ns nm))
   \<and> (\<forall>t d. v_timestamp (version_entry (CHR ''v'' # string_of_nat t) d) = int t)"
proof -
  have a: "\<forall>v \<in> set (getVersionHistory s ns nm).
         v_id v \<in> set (listIconVersions s ns nm)
         \<and> readIconVersion s ns nm (v_id v) = Some (v_data v)
         \<and> v_timestamp v = (case parseInt10 (drop 1 (v_id v)) of None \<Rightarrow> 0 | Some t \<Rightarrow> t)"
    unfolding set_getVersionHistory by (auto simp: version_entry_def)
  have b: "\<forall>vid \<in> set (listIconVersions s ns nm). \<forall>d. readIconVersion s ns nm vid = Some d \<longrightarrow>
         version_entry vid d \<in> set (getVersionHistory s ns nm)"
    unfolding set_getVersionHistory by blast
  from a b sorted_getVersionHistory length_getVersionHistory version_entry_timestamp
  show ?thesis by blast
qed


theorem getVersionHistory_newest_first_witness:
  "map v_id (getVersionHistory ex_store ''gd'' ''home'') = [''v300'', ''v200'', ''v100'', ''vabc'']
   \<and> map v_timestamp (getVersionHistory ex_store ''gd'' ''home'') = [300, 200, 100, 0]"
proof -
  have h: "map v_id (getVersionHistory ex_store ''gd'' ''home'') = [''v300'', ''v200'', ''v100'', ''vabc'']
   \<and> map v_timestamp (getVersionHistory ex_store ''gd'' ''home'') = [300, 200, 100, 0]"
    by code_simp
  from getVersionHistory_newest_first[of ex_store "''gd''" "''home''"] h show ?thesis by blast
qed



lemma readIconSetMetadata_updateMetadata:
  "readIconSetMetadata (updateMetadata clk s ns) ns =
     Some \<lparr>md_prefix = ns,
           md_name = (case readIconSetMetadata s ns of
                        Some m \<Rightarrow> if md_name m \<noteq> [] then md_name m else ns | None \<Rightarrow> ns),
           md_total = length (listIcons s ns),
           md_version = (case readIconSetMetadata s ns of
                           Some m \<Rightarrow> incrementVersion (at_incrementVersion clk) (md_version m)
                         | None \<Rightarrow> ''1.0.0''),
           md_author = (case readIconSetMetadata s ns of Some m \<Rightarrow> md_author m | None \<Rightarrow> None),
           md_license = (case readIconSetMetadata s ns of Some m \<Rightarrow> md_license m | None \<Rightarrow> None),
           md_lastModified = at_lastModified clk\<rparr>"
  by (simp add: updateMetadata_def Let_def saveIconSetMetadata_def readIconSetMetadata_def)

lemma readIconSetMetadata_cong: "metadata_file s' = metadata_file s \<Longrightarrow> readIconSetMetadata s' = readIconSetMetadata s"
  by (intro ext) (simp add: readIconSetMetadata_def)

lemma split_on_no_sep: "sep \<notin> set x \<Longrightarrow> split_on sep x = [x]"
  by (induction x) auto

lemma split_on_append:
  "sep \<notin> set a \<Longrightarrow> split_on sep (a @ sep # rest) = a # split_on sep rest"
  by (induction a) auto

lemma split_on_three:
  "CHR ''.'' \<notin> set a \<Longrightarrow> CHR ''.'' \<notin> set b \<Longrightarrow> CHR ''.'' \<notin> set c \<Longrightarrow>
     split_on CHR ''.'' (a @ ''.'' @ b @ ''.'' @ c) = [a, b, c]"
  by (simp add: split_on_append split_on_no_sep)

lemma incrementVersion_patch:
  assumes "CHR ''.'' \<notin> set a" "CHR ''.'' \<notin> set b" "CHR ''.'' \<notin> set c" "parseInt10 c = Some patch"
  shows "incrementVersion now (a @ ''.'' @ b @ ''.'' @ c) = a @ ''.'' @ b @ ''.'' @ string_of_int (patch + 1)"
  unfolding incrementVersion_def split_on_three[OF assms(1,2,3)] using assms(4) by simp

lemma string_of_nat_no_dot: "CHR ''.'' \<notin> set (string_of_nat n)"
  using string_of_nat_chars[of n] by auto

lemma incrementVersion_nat:
  assumes "CHR ''.'' \<notin> set a" "CHR ''.'' \<notin> set b"
  shows "incrementVersion now (a @ ''.'' @ b @ ''.'' @ string_of_nat n)
           = a @ ''.'' @ b @ ''.'' @ string_of_nat (n + 1)"
proof -
  have "string_of_int (int n + 1) = string_of_nat (n + 1)"
    by (simp add: string_of_int_def nat_add_distrib)
  with incrementVersion_patch[OF assms string_of_nat_no_dot parseInt10_string_of_nat, of now n]
  show ?thesis by simp
qed

lemma incrementVersion_fallback:
  "length (split_on CHR ''.'' v) \<noteq> 3 \<or> parseInt10 (split_on CHR ''.'' v ! 2) = None \<Longrightarrow>
     incrementVersion now v = ''1.0.'' @ string_of_nat now"
  by (auto simp: incrementVersion_def Let_def)

lemma incrementVersion_fallback_changes:
  assumes "length (split_on CHR ''.'' v) \<noteq> 3 \<or> parseInt10 (split_on CHR ''.'' v ! 2) = None"
  shows "incrementVersion now v \<noteq> v"
proof
  assume "incrementVersion now v = v"
  then have v: "v = ''1'' @ ''.'' @ ''0'' @ ''.'' @ string_of_nat now"
    unfolding incrementVersion_fallback[OF assms] by simp
  have "split_on CHR ''.'' v = [''1'', ''0'', string_of_nat now]"
    unfolding v by (rule split_on_three) (simp_all add: string_of_nat_no_dot)
  with assms show False by (simp add: parseInt10_string_of_nat)
qed

lemma string_of_nat_digits: "\<forall>c\<in>set (string_of_nat n). is_digit c"
  using string_of_nat_chars[of n] is_digit_chars by blast

lemma parseInt10_string_of_int: "parseInt10 (string_of_int i) = Some i"
proof (cases "i < 0")
  case False
  then show ?thesis
    using parseInt10_string_of_nat[of "nat i"] by (simp add: string_of_int_def)
next
  case True
  let ?d = "string_of_nat (nat (- i))"
  have dg: "takeWhile is_digit ?d = ?d"
    using string_of_nat_digits by (simp add: takeWhile_eq_all_conv)
  have ne: "?d \<noteq> []" by (rule string_of_nat_nonempty)
  have dw: "dropWhile is_ws (CHR ''-'' # ?d) = CHR ''-'' # ?d" by (simp add: is_ws_def)
  have "parseInt10 (CHR ''-'' # ?d) = Some (- int (nat_of_digits 0 ?d))"
    unfolding parseInt10_def Let_def dw by (simp add: dg ne del: takeWhile_eq_all_conv)
  with True show ?thesis
    by (simp add: string_of_int_def nat_of_digits_string_of_nat)
qed

lemma incrementVersion_changes:
  assumes "CHR ''.'' \<notin> set a" "CHR ''.'' \<notin> set b" "CHR ''.'' \<notin> set c" "parseInt10 c = Some patch"
  shows "incrementVersion now (a @ ''.'' @ b @ ''.'' @ c) \<noteq> a @ ''.'' @ b @ ''.'' @ c"
proof
  assume "incrementVersion now (a @ ''.'' @ b @ ''.'' @ c) = a @ ''.'' @ b @ ''.'' @ c"
  then have "string_of_int (patch + 1) = c"
    unfolding incrementVersion_patch[OF assms] by simp
  with parseInt10_string_of_int[of "patch + 1"] assms(4) show False by simp
qed

text \<open>
  Claim C2. When no version file with the id reads, \<open>rollbackToVersion\<close> throws the error
  \<open>Version not found: <id>\<close> and the tree is as before. Otherwise it returns, having saved
  the current icon (when there is one) as the version \<open>v<time of the snapshot>\<close>, then
  written the target version's data as the current icon, then updated the metadata: the
  total is the number of listed icons, \<open>lastModified\<close> is the clock's reading, and the
  version is \<open>1.0.0\<close> when there was no metadata, the previous version \<open>a.b.c\<close> with its
  third part replaced by the number \<open>parseInt\<close> reads from it plus one (the number is
  below \<open>2 ^ 53 - 1\<close>, where the source's arithmetic is exact), and \<open>1.0.<clock reading>\<close>
  when the previous version has not three parts or its third part starts with no number;
  in both cases the new version differs from the previous one.
\<close>

theorem rollbackToVersion_spec:
  "(readIconVersion s ns nm vid = None \<longrightarrow>
      rollbackToVersion clk s ns nm vid = (Inl (PlainError (''Version not found: '' @ vid)), s))
   \<and> (\<forall>target. readIconVersion s ns nm vid = Some target \<longrightarrow>
        (case rollbackToVersion clk s ns nm vid of (res, s') \<Rightarrow>
           res = Inr ()
           \<and> s' = updateMetadata clk
                   (saveIcon (case readIcon s ns nm of
                                Some cur \<Rightarrow> saveIconVersion s ns nm (CHR ''v'' # string_of_nat (at_saveVersion clk)) cur
                              | None \<Rightarrow> s) ns nm target) ns
           \<and> getIcon s' ns nm = Some target
           \<and> (\<forall>cur. readIcon s ns nm = Some cur \<longrightarrow>
                 readIconVersion s' ns nm (CHR ''v'' # string_of_nat (at_saveVersion clk)) = Some cur
                 \<and> CHR ''v'' # string_of_nat (at_saveVersion clk) \<in> set (listIconVersions s' ns nm))
           \<and> (readIcon s ns nm = None \<longrightarrow> version_files s' = version_files s)
           \<and> (\<exists>m. readIconSetMetadata s' ns = Some m
                 \<and> md_total m = length (listIcons s' ns)
                 \<and> md_lastModified m = at_lastModified clk
                 \<and> md_version m = (case readIconSetMetadata s ns of
                                     None \<Rightarrow> ''1.0.0''
                                   | Some m0 \<Rightarrow> incrementVersion (at_incrementVersion clk) (md_version m0))
                 \<and> (\<forall>m0 a b c patch.
                       readIconSetMetadata s ns = Some m0
                       \<and> md_version m0 = a @ ''.'' @ b @ ''.'' @ c
                       \<and> CHR ''.'' \<notin> set a \<and> CHR ''.'' \<notin> set b \<and> CHR ''.'' \<notin> set c
                       \<and> parseInt10 c = Some patch \<and> \<bar>patch\<bar> < 2 ^ 53 - 1
                       \<longrightarrow> md_version m = a @ ''.'' @ b @ ''.'' @ string_of_int (patch + 1)
                           \<and> md_version m \<noteq> md_version m0)
                 \<and> (\<forall>m0. readIconSetMetadata s ns = Some m0
                       \<and> (length (split_on CHR ''.'' (md_version m0)) \<noteq> 3
                          \<or> parseInt10 (split_on CHR ''.'' (md_version m0) ! 2) = None)
                       \<longrightarrow> md_version m = ''1.0.'' @ string_of_nat (at_incrementVersion clk)
                           \<and> md_version m \<noteq> md_version m0))))"
proof (intro conjI allI impI)
  assume "readIconVersion s ns nm vid = None"
  then show "rollbackToVersion clk s ns nm vid = (Inl (PlainError (''Version not found: '' @ vid)), s)"
    by (simp add: rollbackToVersion_def)
next
  fix target
  let ?snap = "CHR ''v'' # string_of_nat (at_saveVersion clk)"
  let ?s1 = "case readIcon s ns nm of Some cur \<Rightarrow> saveIconVersion s ns nm ?snap cur | None \<Rightarrow> s"
  let ?s2 = "saveIcon ?s1 ns nm target"
  let ?s' = "updateMetadata clk ?s2 ns"
  let ?now = "at_incrementVersion clk"
  assume t: "readIconVersion s ns nm vid = Some target"
  then have r: "rollbackToVersion clk s ns nm vid = (Inr (), ?s')"
    by (simp add: rollbackToVersion_def Let_def saveVersion_def split: option.splits)
  have vf: "version_files ?s' = version_files ?s1" by simp
  have cur: "getIcon ?s' ns nm = Some target"
    by (simp add: getIcon_def readIcon_saveIcon)
  have snap: "\<forall>cur. readIcon s ns nm = Some cur \<longrightarrow>
                 readIconVersion ?s' ns nm ?snap = Some cur \<and> ?snap \<in> set (listIconVersions ?s' ns nm)"
  proof (intro allI impI)
    fix cur assume c: "readIcon s ns nm = Some cur"
    then have vf2: "version_files ?s' = version_files (saveIconVersion s ns nm ?snap cur)" by simp
    show "readIconVersion ?s' ns nm ?snap = Some cur \<and> ?snap \<in> set (listIconVersions ?s' ns nm)"
      unfolding readIconVersion_cong[OF vf2] listIconVersions_cong[OF vf2]
      using listIconVersions_saveIconVersion_mem[OF versionId_no_dot]
      by (simp add: readIconVersion_saveIconVersion)
  qed
  have nov: "readIcon s ns nm = None \<longrightarrow> version_files ?s' = version_files s"
    by simp
  have mf: "metadata_file ?s2 = metadata_file s"
    by (simp split: option.splits)
  define m where "m = the (readIconSetMetadata ?s' ns)"
  have rm: "readIconSetMetadata ?s' ns = Some m"
    unfolding m_def readIconSetMetadata_updateMetadata by simp
  have ver: "md_version m = (case readIconSetMetadata s ns of
                                     None \<Rightarrow> ''1.0.0''
                                   | Some m0 \<Rightarrow> incrementVersion ?now (md_version m0))"
    unfolding m_def readIconSetMetadata_updateMetadata readIconSetMetadata_cong[OF mf]
    by (simp split: option.splits)
  have tot: "md_total m = length (listIcons ?s' ns)" "md_lastModified m = at_lastModified clk"
    unfolding m_def readIconSetMetadata_updateMetadata by simp_all
  have num: "\<forall>m0 a b c patch.
                       readIconSetMetadata s ns = Some m0
                       \<and> md_version m0 = a @ ''.'' @ b @ ''.'' @ c
                       \<and> CHR ''.'' \<notin> set a \<and> CHR ''.'' \<notin> set b \<and> CHR ''.'' \<notin> set c
                       \<and> parseInt10 c = Some patch \<and> \<bar>patch\<bar> < 2 ^ 53 - 1
                       \<longrightarrow> md_version m = a @ ''.'' @ b @ ''.'' @ string_of_int (patch + 1)
                           \<and> md_version m \<noteq> md_version m0"
  proof (intro allI impI, elim conjE)
    fix m0 a b c patch
    assume a: "readIconSetMetadata s ns = Some m0" "md_version m0 = a @ ''.'' @ b @ ''.'' @ c"
       "CHR ''.'' \<notin> set a" "CHR ''.'' \<notin> set b" "CHR ''.'' \<notin> set c" "parseInt10 c = Some patch"
    from a(1) have v: "md_version m = incrementVersion ?now (md_version m0)"
      unfolding ver by simp
    show "md_version m = a @ ''.'' @ b @ ''.'' @ string_of_int (patch + 1)
            \<and> md_version m \<noteq> md_version m0"
      unfolding v a(2)
      using incrementVersion_patch[OF a(3,4,5,6), of ?now] incrementVersion_changes[OF a(3,4,5,6), of ?now]
      by simp
  qed
  have fb: "\<forall>m0. readIconSetMetadata s ns = Some m0
                       \<and> (length (split_on CHR ''.'' (md_version m0)) \<noteq> 3
                          \<or> parseInt10 (split_on CHR ''.'' (md_version m0) ! 2) = None)
                       \<longrightarrow> md_version m = ''1.0.'' @ string_of_nat ?now
                           \<and> md_version m \<noteq> md_version m0"
  proof (intro allI impI, elim conjE)
    fix m0
    assume a: "readIconSetMetadata s ns = Some m0"
       "length (split_on CHR ''.'' (md_version m0)) \<noteq> 3
          \<or> parseInt10 (split_on CHR ''.'' (md_version m0) ! 2) = None"
    from a(1) have v: "md_version m = incrementVersion ?now (md_version m0)"
      unfolding ver by simp
    show "md_version m = ''1.0.'' @ string_of_nat ?now \<and> md_version m \<noteq> md_version m0"
      unfolding v
      using incrementVersion_fallback[OF a(2), of ?now] incrementVersion_fallback_changes[OF a(2), of ?now]
      by simp
  qed
  have md: "\<exists>m. readIconSetMetadata ?s' ns = Some m
                 \<and> md_total m = length (listIcons ?s' ns)
                 \<and> md_lastModified m = at_lastModified clk
                 \<and> md_version m = (case readIconSetMetadata s ns of
                                     None \<Rightarrow> ''1.0.0''
                                   | Some m0 \<Rightarrow> incrementVersion ?now (md_version m0))
                 \<and> (\<forall>m0 a b c patch.
                       readIconSetMetadata s ns = Some m0
                       \<and> md_version m0 = a @ ''.'' @ b @ ''.'' @ c
                       \<and> CHR ''.'' \<notin> set a \<and> CHR ''.'' \<notin> set b \<and> CHR ''.'' \<notin> set c
                       \<and> parseInt10 c = Some patch \<and> \<bar>patch\<bar> < 2 ^ 53 - 1
                       \<longrightarrow> md_version m = a @ ''.'' @ b @ ''.'' @ string_of_int (patch + 1)
                           \<and> md_version m \<noteq> md_version m0)
                 \<and> (\<forall>m0. readIconSetMetadata s ns = Some m0
                       \<and> (length (split_on CHR ''.'' (md_version m0)) \<noteq> 3
                          \<or> parseInt10 (split_on CHR ''.'' (md_version m0) ! 2) = None)
                       \<longrightarrow> md_version m = ''1.0.'' @ string_of_nat ?now
                           \<and> md_version m \<noteq> md_version m0)"
    using rm tot ver num fb by (intro exI[of _ m] conjI)
  from cur snap nov md show "case rollbackToVersion clk s ns nm vid of (res, s') \<Rightarrow>
           res = Inr ()
           \<and> s' = updateMetadata clk
                   (saveIcon (case readIcon s ns nm of
                                Some cur \<Rightarrow> saveIconVersion s ns nm ?snap cur
                              | None \<Rightarrow> s) ns nm target) ns
           \<and> getIcon s' ns nm = Some target
           \<and> (\<forall>cur. readIcon s ns nm = Some cur \<longrightarrow>
                 readIconVersion s' ns nm ?snap = Some cur
                 \<and> ?snap \<in> set (listIconVersions s' ns nm))
           \<and> (readIcon s ns nm = None \<longrightarrow> version_files s' = version_files s)
           \<and> (\<exists>m. readIconSetMetadata s' ns = Some m
                 \<and> md_total m = length (listIcons s' ns)
                 \<and> md_lastModified m = at_lastModified clk
                 \<and> md_version m = (case readIconSetMetadata s ns of
                                     None \<Rightarrow> ''1.0.0''
                                   | Some m0 \<Rightarrow> incrementVersion ?now (md_version m0))
                 \<and> (\<forall>m0 a b c patch.
                       readIconSetMetadata s ns = Some m0
                       \<and> md_version m0 = a @ ''.'' @ b @ ''.'' @ c
                       \<and> CHR ''.'' \<notin> set a \<and> CHR ''.'' \<notin> set b \<and> CHR ''.'' \<notin> set c
                       \<and> parseInt10 c = Some patch \<and> \<bar>patch\<bar> < 2 ^ 53 - 1
                       \<longrightarrow> md_version m = a @ ''.'' @ b @ ''.'' @ string_of_int (patch + 1)
                           \<and> md_version m \<noteq> md_version m0)
                 \<and> (\<forall>m0. readIconSetMetadata s ns = Some m0
                       \<and> (length (split_on CHR ''.'' (md_version m0)) \<noteq> 3
                          \<or> parseInt10 (split_on CHR ''.'' (md_version m0) ! 2) = None)
                       \<longrightarrow> md_version m = ''1.0.'' @ string_of_nat ?now
                           \<and> md_version m \<noteq> md_version m0))"
    unfolding r by simp
qed

theorem rollbackToVersion_spec_witness:
  "readIconVersion ex_store_md ''gd'' ''home'' ''v100'' = Some (ex_icon ''<path d=\"M0 0\"/>'')
   \<and> readIcon ex_store_md ''gd'' ''home'' = Some (ex_icon ''<path d=\"M3 3\"/>'')
   \<and> map_option md_version (readIconSetMetadata ex_store_md ''gd'') = Some ''1.0.4''
   \<and> getIcon (snd (rollbackToVersion ex_clock ex_store_md ''gd'' ''home'' ''v100'')) ''gd'' ''home''
       = Some (ex_icon ''<path d=\"M0 0\"/>'')
   \<and> readIconVersion (snd (rollbackToVersion ex_clock ex_store_md ''gd'' ''home'' ''v100'')) ''gd'' ''home'' ''v400''
       = Some (ex_icon ''<path d=\"M3 3\"/>'')
   \<and> readIconSetMetadata (snd (rollbackToVersion ex_clock ex_store_md ''gd'' ''home'' ''v100'')) ''gd''
       = Some \<lparr>md_prefix = ''gd'', md_name = ''Icons'', md_total = 1, md_version = ''1.0.5'',
               md_author = None, md_license = Some ''MIT'', md_lastModified = 402\<rparr>
   \<and> map_option md_version
         (readIconSetMetadata (snd (rollbackToVersion ex_clock ex_store ''gd'' ''home'' ''v100'')) ''gd'')
       = Some ''1.0.0''
   \<and> readIconVersion ex_store_md ''gd'' ''home'' ''v999'' = None
   \<and> rollbackToVersion ex_clock ex_store_md ''gd'' ''home'' ''v999''
       = (Inl (PlainError ''Version not found: v999''), ex_store_md)"
proof -
  have h: "readIconVersion ex_store_md ''gd'' ''home'' ''v100'' = Some (ex_icon ''<path d=\"M0 0\"/>'')
   \<and> readIcon ex_store_md ''gd'' ''home'' = Some (ex_icon ''<path d=\"M3 3\"/>'')
   \<and> map_option md_version (readIconSetMetadata ex_store_md ''gd'') = Some ''1.0.4''
   \<and> getIcon (snd (rollbackToVersion ex_clock ex_store_md ''gd'' ''home'' ''v100'')) ''gd'' ''home''
       = Some (ex_icon ''<path d=\"M0 0\"/>'')
   \<and> readIconVersion (snd (rollbackToVersion ex_clock ex_store_md ''gd'' ''home'' ''v100'')) ''gd'' ''home'' ''v400''
       = Some (ex_icon ''<path d=\"M3 3\"/>'')
   \<and> readIconSetMetadata (snd (rollbackToVersion ex_clock ex_store_md ''gd'' ''home'' ''v100'')) ''gd''
       = Some \<lparr>md_prefix = ''gd'', md_name = ''Icons'', md_total = 1, md_version = ''1.0.5'',
               md_author = None, md_license = Some ''MIT'', md_lastModified = 402\<rparr>
   \<and> map_option md_version
         (readIconSetMetadata (snd (rollbackToVersion ex_clock ex_store ''gd'' ''home'' ''v100'')) ''gd'')
       = Some ''1.0.0''
   \<and> readIconVersion ex_store_md ''gd'' ''home'' ''v999'' = None"
    by code_simp
  from rollbackToVersion_spec[where s = ex_store_md and ns = "''gd''" and nm = "''home''"
      and vid = "''v999''" and clk = ex_clock] h
  have "rollbackToVersion ex_clock ex_store_md ''gd'' ''home'' ''v999''
       = (Inl (PlainError ''Version not found: v999''), ex_store_md)"
    by simp
  with h show ?thesis by blast
qed

subsection \<open>Synchronisation\<close>

lemma readIcon_addIcon_other:
  "n \<noteq> nm \<or> ns' \<noteq> ns \<Longrightarrow>
   readIcon (snd (addIcon P clk env s ns nm svg opts)) ns' n = readIcon s ns' n"
  by (auto simp: addIcon_def Let_def saveVersion_def readIcon_saveIcon split: option.splits sum.splits)

lemma readIcon_addIcon_present:
  "readIcon s ns' n \<noteq> None \<Longrightarrow> readIcon (snd (addIcon P clk env s ns nm svg opts)) ns' n \<noteq> None"
  by (auto simp: addIcon_def Let_def saveVersion_def readIcon_saveIcon split: option.splits sum.splits)

lemma addIcon_overwrite_ok:
  "P svg = Inr d \<Longrightarrow>
   fst (addIcon P clk env s ns nm svg (Some ''overwrite'')) = Inr ()
   \<and> readIcon (snd (addIcon P clk env s ns nm svg (Some ''overwrite''))) ns nm = Some d"
  by (auto simp: addIcon_def Let_def saveVersion_def readIcon_saveIcon effectiveStrategy_def
      split: option.splits sum.splits)

lemma addIcon_parse_fail:
  "P svg = Inl e \<Longrightarrow>
   readIcon (snd (addIcon P clk env s ns nm svg opts)) ns' n = readIcon s ns' n
   \<and> (\<exists>e'. fst (addIcon P clk env s ns nm svg opts) = Inl e')"
  by (auto simp: addIcon_def Let_def saveVersion_def split: option.splits sum.splits)

lemma export_not_connected:
  "\<not> isConnected env \<Longrightarrow> exportComponentAsSVG env cid = Inl notConnected"
  by (simp add: exportComponentAsSVG_def)

lemma export_Inr_connected:
  "exportComponentAsSVG env cid = Inr svg \<Longrightarrow> isConnected env"
  using export_not_connected[of env cid] by (cases "isConnected env") simp_all

lemma syncIcon_export_fail:
  "exportComponentAsSVG env cid = Inl e \<Longrightarrow> syncIcon env i s cid cname ns = (Inl e, s)"
  using export_not_connected[of env cid] by (cases "isConnected env") (simp_all add: syncIcon_def)

lemma component_data_Some:
  "component_data env c = Some d \<Longrightarrow>
     isConnected env \<and> (\<exists>svg. exportComponentAsSVG env (c_id c) = Inr svg \<and> svgParser env svg = Inr d)"
  using export_Inr_connected[of env "c_id c"]
  by (auto simp: component_data_def split: sum.splits)

lemma syncIcon_ok:
  assumes "component_data env c = Some d"
  shows "fst (syncIcon env i s (c_id c) (c_name c) ns) = Inr ()
       \<and> readIcon (snd (syncIcon env i s (c_id c) (c_name c) ns)) ns (iconNameOf c) = Some d"
proof -
  from component_data_Some[OF assms] obtain svg where
    c: "isConnected env" and e: "exportComponentAsSVG env (c_id c) = Inr svg" and p: "svgParser env svg = Inr d"
    by blast
  from c e have "syncIcon env i s (c_id c) (c_name c) ns =
      addIcon (svgParser env) (clockAt env i) (envStrategy env) s ns (iconNameOf c) svg (Some ''overwrite'')"
    by (simp add: syncIcon_def iconNameOf_def)
  with addIcon_overwrite_ok[where P = "svgParser env", OF p] show ?thesis by simp
qed

lemma syncIcon_other:
  "n \<noteq> iconNameOf c \<Longrightarrow>
   readIcon (snd (syncIcon env i s (c_id c) (c_name c) ns)) ns n = readIcon s ns n"
  by (auto simp: syncIcon_def iconNameOf_def readIcon_addIcon_other split: sum.splits)

lemma syncIcon_present:
  assumes "readIcon s ns n \<noteq> None"
  shows "readIcon (snd (syncIcon env i s cid cname ns)) ns n \<noteq> None"
proof (cases "isConnected env")
  case False
  with assms show ?thesis by (simp add: syncIcon_def)
next
  case True
  show ?thesis
  proof (cases "exportComponentAsSVG env cid")
    case (Inl e)
    with True assms show ?thesis by (simp add: syncIcon_def)
  next
    case (Inr svg)
    with True readIcon_addIcon_present[OF assms] show ?thesis by (simp add: syncIcon_def)
  qed
qed

lemma syncIcon_fail_unchanged:
  assumes "component_data env c = None"
  shows "readIcon (snd (syncIcon env i s (c_id c) (c_name c) ns)) ns n = readIcon s ns n
       \<and> (\<exists>e. fst (syncIcon env i s (c_id c) (c_name c) ns) = Inl e)"
proof (cases "exportComponentAsSVG env (c_id c)")
  case (Inl e)
  from syncIcon_export_fail[OF Inl] show ?thesis by simp
next
  case (Inr svg)
  with assms obtain e where p: "svgParser env svg = Inl e"
    by (auto simp: component_data_def split: sum.splits)
  from Inr have c: "isConnected env" by (rule export_Inr_connected)
  from c Inr have "syncIcon env i s (c_id c) (c_name c) ns =
      addIcon (svgParser env) (clockAt env i) (envStrategy env) s ns (iconNameOf c) svg (Some ''overwrite'')"
    by (simp add: syncIcon_def iconNameOf_def)
  with addIcon_parse_fail[where P = "svgParser env", OF p] show ?thesis by simp
qed

lemma sync_loop_one:
  "sync_loop env ns inc ex [c] i (r, s) =
     (if skipped inc ex c then (r\<lparr>success := success r + 1\<rparr>, s)
      else case syncIcon env i s (c_id c) (c_name c) ns of
             (Inr u, s') \<Rightarrow> (r\<lparr>success := success r + 1\<rparr>, s')
           | (Inl e, s') \<Rightarrow>
               (r\<lparr>failed := failed r + 1, errors := errors r @ [(c_id c, error_message e)]\<rparr>, s'))"
  unfolding skipped_def iconNameOf_def
  by (simp add: Let_def split: prod.splits sum.splits)

lemma sync_loop_Cons:
  "sync_loop env ns inc ex (c # rest) i rs
     = sync_loop env ns inc ex rest (i + 1) (sync_loop env ns inc ex [c] i rs)"
proof -
  obtain r s where rs: "rs = (r, s)" by (cases rs) auto
  obtain res s' where st: "syncIcon env i s (c_id c) (c_name c) ns = (res, s')"
    by (cases "syncIcon env i s (c_id c) (c_name c) ns") auto
  show ?thesis unfolding rs
    by (cases res) (simp_all add: Let_def st)
qed

declare sync_loop.simps(2) [simp del]

lemma sync_loop_append:
  "sync_loop env ns inc ex (xs @ ys) i rs
     = sync_loop env ns inc ex ys (i + length xs) (sync_loop env ns inc ex xs i rs)"
proof (induction xs arbitrary: i rs)
  case Nil
  then show ?case by (cases rs) simp
next
  case (Cons c xs)
  have "sync_loop env ns inc ex ((c # xs) @ ys) i rs
        = sync_loop env ns inc ex (xs @ ys) (i + 1) (sync_loop env ns inc ex [c] i rs)"
    using sync_loop_Cons[of env ns inc ex c "xs @ ys" i rs] by simp
  also have "\<dots> = sync_loop env ns inc ex ys (i + 1 + length xs)
                    (sync_loop env ns inc ex xs (i + 1) (sync_loop env ns inc ex [c] i rs))"
    by (rule Cons.IH)
  also have "sync_loop env ns inc ex xs (i + 1) (sync_loop env ns inc ex [c] i rs)
               = sync_loop env ns inc ex (c # xs) i rs"
    by (rule sync_loop_Cons[symmetric])
  finally show ?case by simp
qed

lemma step_skipped:
  "skipped inc ex c \<Longrightarrow>
     sync_loop env ns inc ex [c] i (r, s) = (r\<lparr>success := success r + 1\<rparr>, s)"
  by (simp add: sync_loop_one)

lemma step_ok:
  assumes "\<not> skipped inc ex c" "component_data env c = Some d"
  shows "fst (sync_loop env ns inc ex [c] i (r, s)) = r\<lparr>success := success r + 1\<rparr>
       \<and> readIcon (snd (sync_loop env ns inc ex [c] i (r, s))) ns (iconNameOf c) = Some d"
proof -
  obtain res s' where st: "syncIcon env i s (c_id c) (c_name c) ns = (res, s')"
    by (cases "syncIcon env i s (c_id c) (c_name c) ns") auto
  with syncIcon_ok[OF assms(2), of i s ns] have "res = Inr ()" "readIcon s' ns (iconNameOf c) = Some d"
    by simp_all
  with st assms(1) show ?thesis
    by (simp add: sync_loop_one)
qed

lemma step_fail:
  assumes "\<not> skipped inc ex c" "exportComponentAsSVG env (c_id c) = Inl e"
  shows "sync_loop env ns inc ex [c] i (r, s)
           = (r\<lparr>failed := failed r + 1, errors := errors r @ [(c_id c, error_message e)]\<rparr>, s)"
  using assms(1) syncIcon_export_fail[OF assms(2)]
  by (simp add: sync_loop_one)

lemma step_present:
  "readIcon s ns n \<noteq> None \<Longrightarrow> readIcon (snd (sync_loop env ns inc ex [c] i (r, s))) ns n \<noteq> None"
  using syncIcon_present[of s ns n env i "c_id c" "c_name c"]
  by (auto simp: sync_loop_one split: prod.splits sum.splits)

lemma step_other:
  "n \<noteq> iconNameOf c \<Longrightarrow> readIcon (snd (sync_loop env ns inc ex [c] i (r, s))) ns n = readIcon s ns n"
  using syncIcon_other[of n c env i s ns]
  by (auto simp: sync_loop_one split: prod.splits sum.splits)

lemma step_no_write:
  "skipped inc ex c \<or> component_data env c = None \<Longrightarrow>
     readIcon (snd (sync_loop env ns inc ex [c] i (r, s))) ns n = readIcon s ns n"
  using syncIcon_fail_unchanged[of env c i s ns n]
  by (auto simp: sync_loop_one split: prod.splits sum.splits)


lemma loop_present:
  "readIcon s ns n \<noteq> None \<Longrightarrow>
     readIcon (snd (sync_loop env ns inc ex comps i (r, s))) ns n \<noteq> None"
proof (induction comps arbitrary: i r s)
  case Nil
  then show ?case by simp
next
  case (Cons c rest)
  obtain r1 s1 where st: "sync_loop env ns inc ex [c] i (r, s) = (r1, s1)"
    by (cases "sync_loop env ns inc ex [c] i (r, s)") auto
  from step_present[OF Cons.prems, of env inc ex c i r] st have "readIcon s1 ns n \<noteq> None" by simp
  from Cons.IH[OF this] show ?case
    by (simp add: sync_loop_Cons[of env ns inc ex c rest] st)
qed

lemma loop_counts:
  "\<forall>c\<in>set comps. skipped inc ex c \<or> component_data env c \<noteq> None \<Longrightarrow>
     fst (sync_loop env ns inc ex comps i (r, s)) = r\<lparr>success := success r + length comps\<rparr>"
proof (induction comps arbitrary: i r s)
  case Nil
  then show ?case by simp
next
  case (Cons c rest)
  obtain r1 s1 where st: "sync_loop env ns inc ex [c] i (r, s) = (r1, s1)"
    by (cases "sync_loop env ns inc ex [c] i (r, s)") auto
  have r1: "r1 = r\<lparr>success := success r + 1\<rparr>"
  proof (cases "skipped inc ex c")
    case True
    from step_skipped[OF True, of env ns i r s] st show ?thesis by simp
  next
    case False
    with Cons.prems obtain d where "component_data env c = Some d" by auto
    from step_ok[OF False this, of ns i r s] st show ?thesis by simp
  qed
  from Cons.prems have "\<forall>c\<in>set rest. skipped inc ex c \<or> component_data env c \<noteq> None" by simp
  from Cons.IH[OF this, of "i + 1" r1 s1] show ?case
    by (simp add: sync_loop_Cons[of env ns inc ex c rest] st r1)
qed

lemma loop_stored:
  "\<forall>c\<in>set comps. skipped inc ex c \<longrightarrow> readIcon s ns (iconNameOf c) \<noteq> None \<Longrightarrow>
   \<forall>c\<in>set comps. skipped inc ex c \<or> component_data env c \<noteq> None \<longrightarrow>
      readIcon (snd (sync_loop env ns inc ex comps i (r, s))) ns (iconNameOf c) \<noteq> None"
proof (induction comps arbitrary: i r s)
  case Nil
  then show ?case by simp
next
  case (Cons x rest)
  obtain r1 s1 where st: "sync_loop env ns inc ex [x] i (r, s) = (r1, s1)"
    by (cases "sync_loop env ns inc ex [x] i (r, s)") auto
  have fin: "sync_loop env ns inc ex (x # rest) i (r, s) = sync_loop env ns inc ex rest (i + 1) (r1, s1)"
    by (simp add: sync_loop_Cons[of env ns inc ex x rest] st)
  have pres: "readIcon s ns n \<noteq> None \<Longrightarrow> readIcon s1 ns n \<noteq> None" for n
    using step_present[of s ns n env inc ex x i r] st by simp
  have rest: "\<forall>c\<in>set rest. skipped inc ex c \<longrightarrow> readIcon s1 ns (iconNameOf c) \<noteq> None"
    using Cons.prems pres by simp
  have x: "skipped inc ex x \<or> component_data env x \<noteq> None \<longrightarrow>
             readIcon (snd (sync_loop env ns inc ex rest (i + 1) (r1, s1))) ns (iconNameOf x) \<noteq> None"
  proof
    assume a: "skipped inc ex x \<or> component_data env x \<noteq> None"
    have "readIcon s1 ns (iconNameOf x) \<noteq> None"
    proof (cases "skipped inc ex x")
      case True
      with Cons.prems pres show ?thesis by simp
    next
      case False
      with a obtain d where "component_data env x = Some d" by auto
      from step_ok[OF False this, of ns i r s] st show ?thesis by simp
    qed
    then show "readIcon (snd (sync_loop env ns inc ex rest (i + 1) (r1, s1))) ns (iconNameOf x) \<noteq> None"
      by (rule loop_present)
  qed
  from Cons.IH[OF rest, of "i + 1" r1] x show ?case
    unfolding fin by simp
qed

lemma loop_untouched:
  "\<forall>c\<in>set comps. iconNameOf c = n \<longrightarrow> skipped inc ex c \<or> component_data env c = None \<Longrightarrow>
     readIcon (snd (sync_loop env ns inc ex comps i (r, s))) ns n = readIcon s ns n"
proof (induction comps arbitrary: i r s)
  case Nil
  then show ?case by simp
next
  case (Cons x rest)
  obtain r1 s1 where st: "sync_loop env ns inc ex [x] i (r, s) = (r1, s1)"
    by (cases "sync_loop env ns inc ex [x] i (r, s)") auto
  have fin: "sync_loop env ns inc ex (x # rest) i (r, s) = sync_loop env ns inc ex rest (i + 1) (r1, s1)"
    by (simp add: sync_loop_Cons[of env ns inc ex x rest] st)
  have s1: "readIcon s1 ns n = readIcon s ns n"
  proof (cases "iconNameOf x = n")
    case True
    with Cons.prems have "skipped inc ex x \<or> component_data env x = None" by simp
    from step_no_write[OF this, of ns i r s n] st show ?thesis by simp
  next
    case False
    then have "n \<noteq> iconNameOf x" by blast
    from step_other[OF this, of env ns inc ex i r s] st show ?thesis by simp
  qed
  from Cons.prems have "\<forall>c\<in>set rest. iconNameOf c = n \<longrightarrow> skipped inc ex c \<or> component_data env c = None"
    by simp
  from Cons.IH[OF this, of "i + 1" r1 s1] s1 show ?case
    unfolding fin by simp
qed

lemma loop_exact:
  "\<forall>c\<in>set comps. \<not> skipped inc ex c \<Longrightarrow>
   distinct (map iconNameOf (filter (\<lambda>c. component_data env c \<noteq> None) comps)) \<Longrightarrow>
   \<forall>c\<in>set comps. component_data env c \<noteq> None \<longrightarrow>
      readIcon (snd (sync_loop env ns inc ex comps i (r, s))) ns (iconNameOf c) = component_data env c"
proof (induction comps arbitrary: i r s)
  case Nil
  then show ?case by simp
next
  case (Cons x rest)
  obtain r1 s1 where st: "sync_loop env ns inc ex [x] i (r, s) = (r1, s1)"
    by (cases "sync_loop env ns inc ex [x] i (r, s)") auto
  have fin: "sync_loop env ns inc ex (x # rest) i (r, s) = sync_loop env ns inc ex rest (i + 1) (r1, s1)"
    by (simp add: sync_loop_Cons[of env ns inc ex x rest] st)
  have ns: "\<forall>c\<in>set rest. \<not> skipped inc ex c" and nx: "\<not> skipped inc ex x"
    using Cons.prems(1) by simp_all
  have dr: "distinct (map iconNameOf (filter (\<lambda>c. component_data env c \<noteq> None) rest))"
    using Cons.prems(2) by (simp split: if_splits)
  have x: "component_data env x \<noteq> None \<longrightarrow>
      readIcon (snd (sync_loop env ns inc ex rest (i + 1) (r1, s1))) ns (iconNameOf x) = component_data env x"
  proof
    assume a: "component_data env x \<noteq> None"
    then obtain d where d: "component_data env x = Some d" by auto
    from step_ok[OF nx d, of ns i r s] st have s1: "readIcon s1 ns (iconNameOf x) = Some d" by simp
    from a Cons.prems(2) have "iconNameOf x \<notin> iconNameOf ` {c \<in> set rest. component_data env c \<noteq> None}"
      by simp
    then have "\<forall>c\<in>set rest. iconNameOf c = iconNameOf x \<longrightarrow> skipped inc ex c \<or> component_data env c = None"
      by (metis (mono_tags, lifting) image_eqI mem_Collect_eq)
    from loop_untouched[OF this, where ns = ns and i = "i + 1" and r = r1 and s = s1] s1 d
    show "readIcon (snd (sync_loop env ns inc ex rest (i + 1) (r1, s1))) ns (iconNameOf x) = component_data env x"
      by simp
  qed
  from Cons.IH[OF ns dr, of "i + 1" r1 s1] x show ?case
    unfolding fin by simp
qed

lemma foldl_icons:
  "foldl (\<lambda>m nm. case readIcon s ns nm of Some iconData \<Rightarrow> m(nm := Some iconData) | None \<Rightarrow> m) m0 names n \<noteq> None
     \<Longrightarrow> m0 n \<noteq> None \<or> readIcon s ns n \<noteq> None"
proof (induction names arbitrary: m0)
  case Nil
  then show ?case by simp
next
  case (Cons a names)
  let ?m1 = "case readIcon s ns a of Some iconData \<Rightarrow> m0(a := Some iconData) | None \<Rightarrow> m0"
  from Cons.prems have "foldl (\<lambda>m nm. case readIcon s ns nm of Some iconData \<Rightarrow> m(nm := Some iconData) | None \<Rightarrow> m)
      ?m1 names n \<noteq> None" by simp
  from Cons.IH[OF this] have "?m1 n \<noteq> None \<or> readIcon s ns n \<noteq> None" .
  then show ?case by (cases "readIcon s ns a"; cases "a = n") auto
qed

lemma getAllIcons_present:
  "is_icons (getAllIcons now s ns) n \<noteq> None \<Longrightarrow> readIcon s ns n \<noteq> None"
  using foldl_icons[of s ns "\<lambda>nm. None" "listIcons s ns" n]
  by (simp add: getAllIcons_def loadIconSet_def Let_def)


lemma skipped_present:
  "skipped incremental (if incremental then Some (is_icons (getAllIcons now s ns)) else None) c
     \<Longrightarrow> readIcon s ns (iconNameOf c) \<noteq> None"
proof -
  assume a: "skipped incremental (if incremental then Some (is_icons (getAllIcons now s ns)) else None) c"
  then have "is_icons (getAllIcons now s ns) (iconNameOf c) \<noteq> None"
    by (cases incremental) (simp_all add: skipped_def)
  then show ?thesis by (rule getAllIcons_present)
qed

text \<open>The example sources: what their requests return.\<close>

lemma cat_server: "isRetryableError (categorizeError ex_server_error)"
  by code_simp

lemma cat_timeout: "isRetryableError (categorizeError ex_timeout)"
  by code_simp

lemma executeWithRetry_exhausted:
  "(\<And>k. requestFn k = Inl e) \<Longrightarrow> isRetryableError (categorizeError e) \<Longrightarrow>
     executeWithRetry requestFn = (Inl e, 4, [1000, 2000, 4000])"
  by (simp add: executeWithRetry_def retry_loop.simps[of requestFn] retryConfig_def
        calculateBackoffDelay_def)

lemma executeWithRetry_first_ok:
  "requestFn 0 = Inr r \<Longrightarrow> executeWithRetry requestFn = (Inr r, 1, [])"
  by (simp add: executeWithRetry_def retry_loop.simps[of requestFn 0] retryConfig_def)

lemma ex_env_ids [simp]:
  "apiToken (ex_env comps failing) = ''figd_token''" "fileId (ex_env comps failing) = ''FILE1''"
  "apiToken ex_env_down = ''figd_token''" "fileId ex_env_down = ''FILE1''"
  by (simp_all add: ex_env_def ex_env_down_def)

lemma ex_export_fail:
  "failing \<noteq> [] \<Longrightarrow> exportComponentAsSVG (ex_env comps failing) failing = Inl ex_server_error"
proof -
  assume ne: "failing \<noteq> []"
  let ?f = "\<lambda>k. case imagesGet (ex_env comps failing) (imagesRequest ''figd_token'' ''FILE1'' failing) k of
                    Inl e \<Rightarrow> Inl e
                  | Inr None \<Rightarrow> Inl (PlainError ''Invalid response from Figma images API'')
                  | Inr (Some images) \<Rightarrow>
                      (case map_of images failing of
                         Some svgUrl \<Rightarrow>
                           if svgUrl \<noteq> [] then Inr svgUrl
                           else Inl (PlainError (''No SVG URL returned for component '' @ failing))
                       | None \<Rightarrow>
                           Inl (PlainError (''No SVG URL returned for component '' @ failing)))"
  have "\<And>k. ?f k = Inl ex_server_error" by (simp add: ex_env_def imagesRequest_def)
  from executeWithRetry_exhausted[where requestFn = ?f and e = ex_server_error, OF this cat_server]
  have "executeWithRetry ?f = (Inl ex_server_error, 4, [1000, 2000, 4000])" .
  with ne show ?thesis
    unfolding exportComponentAsSVG_def ex_env_ids by (simp add: ex_env_def)
qed

lemma ex_export_ok:
  "cid \<noteq> [] \<Longrightarrow> cid \<noteq> failing \<Longrightarrow>
     exportComponentAsSVG (ex_env comps failing) cid = Inr (''<svg><path d=\"u/'' @ cid @ ''\"/></svg>'')"
proof -
  assume ne: "cid \<noteq> []" and nf: "cid \<noteq> failing"
  define url where "url = ''u/'' @ cid"
  define svg where "svg = ''<svg><path d=\"'' @ url @ ''\"/></svg>''"
  let ?f = "\<lambda>k. case imagesGet (ex_env comps failing) (imagesRequest ''figd_token'' ''FILE1'' cid) k of
                    Inl e \<Rightarrow> Inl e
                  | Inr None \<Rightarrow> Inl (PlainError ''Invalid response from Figma images API'')
                  | Inr (Some images) \<Rightarrow>
                      (case map_of images cid of
                         Some svgUrl \<Rightarrow>
                           if svgUrl \<noteq> [] then Inr svgUrl
                           else Inl (PlainError (''No SVG URL returned for component '' @ cid))
                       | None \<Rightarrow>
                           Inl (PlainError (''No SVG URL returned for component '' @ cid)))"
  let ?g = "\<lambda>k. case download (ex_env comps failing) (downloadRequest url) k of
                    Inl e \<Rightarrow> Inl e
                  | Inr content \<Rightarrow>
                      if content = [] then Inl (PlainError ''Invalid SVG content received'')
                      else Inr content"
  have f0: "?f 0 = Inr url" using nf by (simp add: ex_env_def url_def imagesRequest_def)
  have g0: "?g 0 = Inr svg" by (simp add: ex_env_def svg_def downloadRequest_def)
  have f: "executeWithRetry ?f = (Inr url, 1, [])"
    by (rule executeWithRetry_first_ok[where requestFn = ?f, OF f0])
  have g: "executeWithRetry ?g = (Inr svg, 1, [])"
    by (rule executeWithRetry_first_ok[where requestFn = ?g, OF g0])
  have c: "isConnected (ex_env comps failing)" by (simp add: ex_env_def)
  have "exportComponentAsSVG (ex_env comps failing) cid = Inr svg"
    unfolding exportComponentAsSVG_def ex_env_ids using ne c by (simp add: f g)
  then show ?thesis by (simp add: svg_def url_def)
qed

lemma ex_component_data:
  "cid \<noteq> [] \<Longrightarrow> cid \<noteq> failing \<Longrightarrow>
     component_data (ex_env comps failing) (ex_component cid nm)
       = Some (ex_icon (''<svg><path d=\"u/'' @ cid @ ''\"/></svg>''))"
  using ex_export_ok[of cid failing comps]
  by (simp add: component_data_def ex_component_def) (simp add: ex_env_def)

lemma ex_fetch:
  assumes co: "componentsOf (ex_file comps) = comps"
  shows "fetchIconComponentsWithPagination (ex_env comps failing) False = Inr comps"
proof -
  let ?f = "\<lambda>k. case filesGet (ex_env comps failing) (filesRequest ''figd_token'' ''FILE1'') k of
                    Inl e \<Rightarrow> Inl e
                  | Inr None \<Rightarrow> Inl (PlainError ''Invalid Figma file structure'')
                  | Inr (Some file) \<Rightarrow> Inr file"
  have f0: "?f 0 = Inr (ex_file comps)" by (simp add: ex_env_def)
  have f: "executeWithRetry ?f = (Inr (ex_file comps), 1, [])"
    by (rule executeWithRetry_first_ok[where requestFn = ?f, OF f0])
  have c: "isConnected (ex_env comps failing)" by (simp add: ex_env_def)
  show ?thesis
    unfolding fetchIconComponentsWithPagination_def fetchIconComponents_def ex_env_ids
    using c by (simp add: f co)
qed

lemma ex_fetch_down: "fetchIconComponentsWithPagination ex_env_down False = Inl ex_timeout"
proof -
  let ?f = "\<lambda>k. case filesGet ex_env_down (filesRequest ''figd_token'' ''FILE1'') k of
                    Inl e \<Rightarrow> Inl e
                  | Inr None \<Rightarrow> Inl (PlainError ''Invalid Figma file structure'')
                  | Inr (Some file) \<Rightarrow> Inr file"
  have "\<And>k. ?f k = Inl ex_timeout" by (simp add: ex_env_down_def)
  from executeWithRetry_exhausted[where requestFn = ?f and e = ex_timeout, OF this cat_timeout]
  have f: "executeWithRetry ?f = (Inl ex_timeout, 4, [1000, 2000, 4000])" .
  have c: "isConnected ex_env_down" by (simp add: ex_env_down_def)
  show ?thesis
    unfolding fetchIconComponentsWithPagination_def fetchIconComponents_def ex_env_ids
    using c by (simp add: f)
qed

lemma syncAllIcons_run:
  "isConnected env \<Longrightarrow> fetchIconComponentsWithPagination env False = Inr comps \<Longrightarrow> comps \<noteq> [] \<Longrightarrow>
     syncAllIcons env s ns inc =
       (Inr (fst (sync_loop env ns inc
                    (if inc then Some (is_icons (getAllIcons (loadTime env) s ns)) else None) comps 0
                    (\<lparr>success = 0, failed = 0, errors = []\<rparr>, s))),
        snd (sync_loop env ns inc
                    (if inc then Some (is_icons (getAllIcons (loadTime env) s ns)) else None) comps 0
                    (\<lparr>success = 0, failed = 0, errors = []\<rparr>, s)))"
  by (simp add: syncAllIcons_def Let_def case_prod_beta)

lemma ex_names:
  "iconNameOf (ex_component ''1:2'' ''Icon-Home'') = ''home''"
  "iconNameOf (ex_component ''1:3'' ''Arrow Left'') = ''arrow-left''"
  "iconNameOf (ex_component ''1:4'' ''star'') = ''star''"
  by code_simp+

lemma ex_store_icons:
  "is_icons (getAllIcons 999 ex_store ''gd'') ''home'' \<noteq> None"
  "readIcon ex_store ''gd'' ''arrow-left'' = None"
  by code_simp+

lemma ex_down_attempts:
  "executeWithRetry (filesGet ex_env_down (filesRequest ''figd_token'' ''FILE1'')) = (Inl ex_timeout, 4, [1000, 2000, 4000])"
proof -
  have "\<And>k. filesGet ex_env_down (filesRequest ''figd_token'' ''FILE1'') k = Inl ex_timeout" by (simp add: ex_env_down_def)
  from executeWithRetry_exhausted[where requestFn = "filesGet ex_env_down (filesRequest ''figd_token'' ''FILE1'')" and e = ex_timeout, OF this cat_timeout]
  show ?thesis .
qed

text \<open>
  Claim C3, as the source has it. Let the source be connected and discover the components
  \<open>pre @ k # post\<close>; let the export of \<open>k\<close> fail, let \<open>k\<close> not be skipped (the run is a
  full one, or the icons loaded for the incremental run have none under the icon name of
  \<open>k\<close>), and let every other component export and parse. Then \<open>syncAllIcons\<close> returns
  \<open>failed = 1\<close>, \<open>success = N - 1\<close> and the single error \<open>(id of k, message)\<close>; for every
  other component \<open>getIcon\<close> of its icon name returns an icon, and in a full run whose
  succeeding components have pairwise distinct icon names it returns the icon parsed from
  that component's own export.
\<close>

theorem syncAllIcons_failure_isolation:
  assumes conn: "isConnected env"
      and fetch: "fetchIconComponentsWithPagination env False = Inr (pre @ k # post)"
      and kfail: "exportComponentAsSVG env (c_id k) = Inl e"
      and knot: "incremental \<longrightarrow> is_icons (getAllIcons (loadTime env) s ns) (iconNameOf k) = None"
      and oks: "\<forall>c\<in>set (pre @ post). component_data env c \<noteq> None"
  shows "case syncAllIcons env s ns incremental of (res, s') \<Rightarrow>
           res = Inr \<lparr>success = length pre + length post, failed = 1,
                      errors = [(c_id k, error_message e)]\<rparr>
           \<and> (\<forall>c\<in>set (pre @ post). getIcon s' ns (iconNameOf c) \<noteq> None)
           \<and> (\<not> incremental \<and> distinct (map iconNameOf (pre @ post)) \<longrightarrow>
                (\<forall>c\<in>set (pre @ post). getIcon s' ns (iconNameOf c) = component_data env c))"
proof -
  let ?ex = "if incremental then Some (is_icons (getAllIcons (loadTime env) s ns)) else None"
  let ?r0 = "\<lparr>success = 0, failed = 0, errors = []\<rparr>"
  let ?all = "pre @ k # post"
  have kdata: "component_data env k = None"
    using kfail by (simp add: component_data_def)
  have knot': "\<not> skipped incremental ?ex k"
    using knot by (simp add: skipped_def)
  obtain r1 s1 where p1: "sync_loop env ns incremental ?ex pre 0 (?r0, s) = (r1, s1)"
    by (cases "sync_loop env ns incremental ?ex pre 0 (?r0, s)") auto
  let ?r2 = "r1\<lparr>failed := failed r1 + 1, errors := errors r1 @ [(c_id k, error_message e)]\<rparr>"
  obtain r3 s3 where p3: "sync_loop env ns incremental ?ex post (length pre + 1) (?r2, s1) = (r3, s3)"
    by (cases "sync_loop env ns incremental ?ex post (length pre + 1) (?r2, s1)") auto
  have whole: "sync_loop env ns incremental ?ex ?all 0 (?r0, s) = (r3, s3)"
  proof -
    have "sync_loop env ns incremental ?ex ?all 0 (?r0, s)
            = sync_loop env ns incremental ?ex (k # post) (length pre) (r1, s1)"
      using sync_loop_append[of env ns incremental ?ex pre "k # post" 0 "(?r0, s)"] p1 by simp
    also have "\<dots> = sync_loop env ns incremental ?ex post (length pre + 1)
                       (sync_loop env ns incremental ?ex [k] (length pre) (r1, s1))"
      by (rule sync_loop_Cons)
    also have "sync_loop env ns incremental ?ex [k] (length pre) (r1, s1) = (?r2, s1)"
      by (rule step_fail[OF knot' kfail])
    finally show ?thesis using p3 by simp
  qed
  have r1: "r1 = ?r0\<lparr>success := success ?r0 + length pre\<rparr>"
    using loop_counts[of pre incremental ?ex env ns 0 ?r0 s] oks p1 by simp
  have r3: "r3 = ?r2\<lparr>success := success ?r2 + length post\<rparr>"
    using loop_counts[of post incremental ?ex env ns "length pre + 1" ?r2 s1] oks p3 by simp
  have res: "r3 = \<lparr>success = length pre + length post, failed = 1,
                      errors = [(c_id k, error_message e)]\<rparr>"
    unfolding r3 r1 by simp
  have sk: "\<forall>c\<in>set ?all. skipped incremental ?ex c \<longrightarrow> readIcon s ns (iconNameOf c) \<noteq> None"
    using skipped_present by blast
  have present: "\<forall>c\<in>set (pre @ post). getIcon s3 ns (iconNameOf c) \<noteq> None"
    using loop_stored[OF sk, of env 0 ?r0] oks unfolding whole getIcon_def by simp
  have exact: "\<not> incremental \<and> distinct (map iconNameOf (pre @ post)) \<longrightarrow>
                (\<forall>c\<in>set (pre @ post). getIcon s3 ns (iconNameOf c) = component_data env c)"
  proof
    assume a: "\<not> incremental \<and> distinct (map iconNameOf (pre @ post))"
    then have ns: "\<forall>c\<in>set ?all. \<not> skipped incremental ?ex c" by (simp add: skipped_def)
    have "filter (\<lambda>c. component_data env c \<noteq> None) ?all = pre @ post"
      using oks kdata by simp
    with a have d: "distinct (map iconNameOf (filter (\<lambda>c. component_data env c \<noteq> None) ?all))"
      by simp
    from loop_exact[OF ns d, of ns 0 ?r0 s] oks
    show "\<forall>c\<in>set (pre @ post). getIcon s3 ns (iconNameOf c) = component_data env c"
      unfolding whole getIcon_def by simp
  qed
  have run: "syncAllIcons env s ns incremental = (Inr r3, s3)"
    using conn fetch whole by (simp add: syncAllIcons_def Let_def)
  from res present exact show ?thesis unfolding run by simp
qed

theorem syncAllIcons_failure_isolation_witness:
  "fst (syncAllIcons (ex_env [ex_component ''1:2'' ''Icon-Home'', ex_component ''1:3'' ''Arrow Left'',
                              ex_component ''1:4'' ''star''] ''1:3'') ex_store ''gd'' False)
     = Inr \<lparr>success = 2, failed = 1, errors = [(''1:3'', ''Request failed with status code 500'')]\<rparr>
   \<and> map iconNameOf [ex_component ''1:2'' ''Icon-Home'', ex_component ''1:3'' ''Arrow Left'',
                      ex_component ''1:4'' ''star''] = [''home'', ''arrow-left'', ''star'']
   \<and> getIcon (snd (syncAllIcons (ex_env [ex_component ''1:2'' ''Icon-Home'', ex_component ''1:3'' ''Arrow Left'',
                              ex_component ''1:4'' ''star''] ''1:3'') ex_store ''gd'' False)) ''gd'' ''home''
       = Some (ex_icon ''<svg><path d=\"u/1:2\"/></svg>'')
   \<and> getIcon (snd (syncAllIcons (ex_env [ex_component ''1:2'' ''Icon-Home'', ex_component ''1:3'' ''Arrow Left'',
                              ex_component ''1:4'' ''star''] ''1:3'') ex_store ''gd'' False)) ''gd'' ''star''
       = Some (ex_icon ''<svg><path d=\"u/1:4\"/></svg>'')
   \<and> getIcon (snd (syncAllIcons (ex_env [ex_component ''1:2'' ''Icon-Home'', ex_component ''1:3'' ''Arrow Left'',
                              ex_component ''1:4'' ''star''] ''1:3'') ex_store ''gd'' False)) ''gd'' ''arrow-left''
       = None"
proof -
  let ?c1 = "ex_component ''1:2'' ''Icon-Home''"
  let ?c2 = "ex_component ''1:3'' ''Arrow Left''"
  let ?c3 = "ex_component ''1:4'' ''star''"
  let ?comps = "[?c1, ?c2, ?c3]"
  let ?env = "ex_env ?comps ''1:3''"
  have conn: "isConnected ?env" by (simp add: ex_env_def)
  have co: "componentsOf (ex_file ?comps) = ?comps"
    by (simp add: componentsOf_def ex_file_def ex_component_def)
  have fetch0: "fetchIconComponentsWithPagination ?env False = Inr ?comps"
    by (rule ex_fetch[OF co])
  then have fetch: "fetchIconComponentsWithPagination ?env False = Inr ([?c1] @ ?c2 # [?c3])"
    by simp
  have kfail: "exportComponentAsSVG ?env (c_id ?c2) = Inl ex_server_error"
    using ex_export_fail[of "''1:3''" ?comps] by (simp add: ex_component_def)
  have d1: "component_data ?env ?c1 = Some (ex_icon ''<svg><path d=\"u/1:2\"/></svg>'')"
    using ex_component_data[of "''1:2''" "''1:3''" ?comps "''Icon-Home''"] by simp
  have d3: "component_data ?env ?c3 = Some (ex_icon ''<svg><path d=\"u/1:4\"/></svg>'')"
    using ex_component_data[of "''1:4''" "''1:3''" ?comps "''star''"] by simp
  have d2: "component_data ?env ?c2 = None"
    using kfail by (simp add: component_data_def)
  have oks: "\<forall>c\<in>set ([?c1] @ [?c3]). component_data ?env c \<noteq> None"
    by (simp add: d1 d3)
  have msg: "error_message ex_server_error = ''Request failed with status code 500''"
    by code_simp
  have T: "case syncAllIcons ?env ex_store ''gd'' False of (res, s') \<Rightarrow>
          res = Inr \<lparr>success = length [?c1] + length [?c3],
                     failed = 1,
                     errors = [(c_id ?c2, error_message ex_server_error)]\<rparr>
           \<and> (\<forall>c\<in>set ([?c1] @ [?c3]). getIcon s' ''gd'' (iconNameOf c) \<noteq> None)
           \<and> (\<not> False \<and> distinct (map iconNameOf ([?c1] @ [?c3])) \<longrightarrow>
                (\<forall>c\<in>set ([?c1] @ [?c3]). getIcon s' ''gd'' (iconNameOf c) = component_data ?env c))"
    by (rule syncAllIcons_failure_isolation[OF conn fetch kfail _ oks]) simp
  have cid: "c_id ?c2 = ''1:3''" by (simp add: ex_component_def)
  from T have r: "fst (syncAllIcons ?env ex_store ''gd'' False)
     = Inr \<lparr>success = 2, failed = 1, errors = [(''1:3'', ''Request failed with status code 500'')]\<rparr>"
    unfolding msg cid by (simp add: case_prod_beta)
  from T have g1: "getIcon (snd (syncAllIcons ?env ex_store ''gd'' False)) ''gd'' ''home''
       = Some (ex_icon ''<svg><path d=\"u/1:2\"/></svg>'')"
    by (simp add: case_prod_beta ex_names d1 d3)
  from T have g3: "getIcon (snd (syncAllIcons ?env ex_store ''gd'' False)) ''gd'' ''star''
       = Some (ex_icon ''<svg><path d=\"u/1:4\"/></svg>'')"
    by (simp add: case_prod_beta ex_names d1 d3)
  have run: "snd (syncAllIcons ?env ex_store ''gd'' False)
      = snd (sync_loop ?env ''gd'' False None ?comps 0 (\<lparr>success = 0, failed = 0, errors = []\<rparr>, ex_store))"
    using syncAllIcons_run[OF conn fetch0, of ex_store "''gd''" False] by simp
  have "readIcon (snd (sync_loop ?env ''gd'' False None ?comps 0
           (\<lparr>success = 0, failed = 0, errors = []\<rparr>, ex_store))) ''gd'' ''arrow-left''
         = readIcon ex_store ''gd'' ''arrow-left''"
    by (rule loop_untouched) (simp add: ex_names d2)
  then have g2: "getIcon (snd (syncAllIcons ?env ex_store ''gd'' False)) ''gd'' ''arrow-left'' = None"
    unfolding run getIcon_def by (simp add: ex_store_icons)
  have nm: "map iconNameOf ?comps = [''home'', ''arrow-left'', ''star'']"
    by (simp add: ex_names)
  from r nm g1 g3 g2 show ?thesis by blast
qed

text \<open>
  An incremental run over two discovered components. The export of the first always
  fails, but an icon of its name is already stored, so the component is skipped and
  counted as a success: the run returns \<open>success = 2\<close> and \<open>failed = 0\<close>.
\<close>

theorem syncAllIcons_incremental_counterexample:
  "fetchIconComponentsWithPagination
       (ex_env [ex_component ''1:2'' ''Icon-Home'', ex_component ''1:4'' ''star''] ''1:2'') False
     = Inr [ex_component ''1:2'' ''Icon-Home'', ex_component ''1:4'' ''star'']
   \<and> exportComponentAsSVG (ex_env [ex_component ''1:2'' ''Icon-Home'', ex_component ''1:4'' ''star''] ''1:2'')
       (c_id (ex_component ''1:2'' ''Icon-Home'')) = Inl ex_server_error
   \<and> component_data (ex_env [ex_component ''1:2'' ''Icon-Home'', ex_component ''1:4'' ''star''] ''1:2'')
       (ex_component ''1:4'' ''star'') = Some (ex_icon ''<svg><path d=\"u/1:4\"/></svg>'')
   \<and> fst (syncAllIcons (ex_env [ex_component ''1:2'' ''Icon-Home'', ex_component ''1:4'' ''star''] ''1:2'')
            ex_store ''gd'' True)
       = Inr \<lparr>success = 2, failed = 0, errors = []\<rparr>"
proof -
  let ?c1 = "ex_component ''1:2'' ''Icon-Home''"
  let ?c3 = "ex_component ''1:4'' ''star''"
  let ?comps = "[?c1, ?c3]"
  let ?env = "ex_env ?comps ''1:2''"
  let ?ex = "Some (is_icons (getAllIcons (loadTime ?env) ex_store ''gd''))"
  have conn: "isConnected ?env" by (simp add: ex_env_def)
  have co: "componentsOf (ex_file ?comps) = ?comps"
    by (simp add: componentsOf_def ex_file_def ex_component_def)
  have fetch: "fetchIconComponentsWithPagination ?env False = Inr ?comps"
    by (rule ex_fetch[OF co])
  have kfail: "exportComponentAsSVG ?env (c_id ?c1) = Inl ex_server_error"
    using ex_export_fail[of "''1:2''" ?comps] by (simp add: ex_component_def)
  have d3: "component_data ?env ?c3 = Some (ex_icon ''<svg><path d=\"u/1:4\"/></svg>'')"
    using ex_component_data[of "''1:4''" "''1:2''" ?comps "''star''"] by simp
  have lt: "loadTime ?env = 999" by (simp add: ex_env_def)
  have sk: "skipped True ?ex ?c1"
    unfolding lt by (simp add: skipped_def ex_names ex_store_icons)
  have "fst (sync_loop ?env ''gd'' True ?ex ?comps 0 (\<lparr>success = 0, failed = 0, errors = []\<rparr>, ex_store))
          = \<lparr>success = 0, failed = 0, errors = []\<rparr>\<lparr>success := success \<lparr>success = 0, failed = 0, errors = []\<rparr> + length ?comps\<rparr>"
    by (rule loop_counts) (simp add: sk d3)
  with syncAllIcons_run[OF conn fetch, of ex_store "''gd''" True]
  have r: "fst (syncAllIcons ?env ex_store ''gd'' True) = Inr \<lparr>success = 2, failed = 0, errors = []\<rparr>"
    by simp
  from fetch kfail d3 r show ?thesis by blast
qed

text \<open>
  Claim C4. When the source is connected and the discovery of the components throws
  (the request for the file has failed at its last attempt, or its response has no
  data), \<open>syncAllIcons\<close> returns (it does not throw) the result with no success, no
  failure and the one error \<open>('N/A', 'Failed to fetch components: <message>')\<close>, and the
  tree is exactly as before the run.
\<close>

theorem syncAllIcons_discovery_failure:
  "isConnected env \<and> fetchIconComponentsWithPagination env False = Inl e \<longrightarrow>
     syncAllIcons env s ns incremental
       = (Inr \<lparr>success = 0, failed = 0,
               errors = [(''N/A'', ''Failed to fetch components: '' @ error_message e)]\<rparr>, s)"
  by (simp add: syncAllIcons_def)

theorem syncAllIcons_discovery_failure_witness:
  "isConnected ex_env_down
   \<and> executeWithRetry (filesGet ex_env_down (filesRequest ''figd_token'' ''FILE1'')) = (Inl ex_timeout, 4, [1000, 2000, 4000])
   \<and> fetchIconComponentsWithPagination ex_env_down False = Inl ex_timeout
   \<and> syncAllIcons ex_env_down ex_store ''gd'' False
       = (Inr \<lparr>success = 0, failed = 0,
               errors = [(''N/A'', ''Failed to fetch components: timeout of 30000ms exceeded'')]\<rparr>, ex_store)"
proof -
  have c: "isConnected ex_env_down" by (simp add: ex_env_down_def)
  have m: "error_message ex_timeout = ''timeout of 30000ms exceeded''"
    by code_simp
  from syncAllIcons_discovery_failure[of ex_env_down ex_timeout ex_store "''gd''" False] c ex_fetch_down
  have "syncAllIcons ex_env_down ex_store ''gd'' False
       = (Inr \<lparr>success = 0, failed = 0,
               errors = [(''N/A'', ''Failed to fetch components: timeout of 30000ms exceeded'')]\<rparr>, ex_store)"
    by (simp add: m)
  with c ex_fetch_down ex_down_attempts show ?thesis by blast
qed

subsection \<open>The SVG parser\<close>







lemma lower_char_quote [simp]: "lower_char c = CHR 0x22 \<longleftrightarrow> c = CHR 0x22"
  by (auto simp: lower_char_def split: option.splits if_splits)

lemma lower_char_eq [simp]: "lower_char c = CHR ''='' \<longleftrightarrow> c = CHR ''=''"
  by (auto simp: lower_char_def split: option.splits if_splits)




















lemma color_attr_Nil [simp]: "color_attr b [] = None"
  by (simp add: color_attr_def toLowerCase_def)

































end
